theory Spec2Isabelle
  imports Complex_Main "HOL-Library.Sublist"
begin

section \<open>Data model\<close>

text \<open>
  The two source files \<^verbatim>\<open>src/agent/library/rail.js\<close> and \<^verbatim>\<open>src/agent/library/cane.js\<close>
  drive a mineflayer bot. The bot itself (world, inventory, pathfinder) is an external
  collaborator: it is a parameter of the model, an environment record \<open>'w env\<close> over an
  arbitrary type \<open>'w\<close> of collaborator states. JavaScript numbers are idealised as \<open>real\<close>
  (no rounding, no NaN); item counts are integers.
\<close>

datatype vec3 = Vec3 (vx: real) (vy: real) (vz: real)

definition clone :: "vec3 \<Rightarrow> vec3" where
  "clone v = Vec3 (vx v) (vy v) (vz v)"

definition v_plus :: "vec3 \<Rightarrow> vec3 \<Rightarrow> vec3" where
  "v_plus a b = Vec3 (vx a + vx b) (vy a + vy b) (vz a + vz b)"

text \<open>\<^verbatim>\<open>add\<close> mutates its receiver and returns it; on a fresh clone that is the sum.\<close>

definition v_add :: "vec3 \<Rightarrow> vec3 \<Rightarrow> vec3" where
  "v_add a b = Vec3 (vx a + vx b) (vy a + vy b) (vz a + vz b)"

definition scaled :: "vec3 \<Rightarrow> real \<Rightarrow> vec3" where
  "scaled a k = Vec3 (vx a * k) (vy a * k) (vz a * k)"

definition floored :: "vec3 \<Rightarrow> vec3" where
  "floored a = Vec3 (of_int \<lfloor>vx a\<rfloor>) (of_int \<lfloor>vy a\<rfloor>) (of_int \<lfloor>vz a\<rfloor>)"

type_synonym offset = "real \<times> real \<times> real"

record origin =
  position :: vec3
  yaw :: real

record block =
  name :: string
  block_position :: vec3
  metadata :: nat

datatype item = Item (item_name: string) (item_count: int)

text \<open>A thrown JavaScript value; \<open>message\<close> is \<open>None\<close> when \<^verbatim>\<open>e.message\<close> is undefined.\<close>

datatype js_error = JsError (message: "string option")

text \<open>The command text \<^verbatim>\<open>/give @s ${itemName} ${amountToGive}\<close>, kept structured.\<close>

datatype chat_message = Give string int

text \<open>
  One constructor per message template of the source; \<open>Text\<close> carries the messages without
  interpolation (the two check-mark glyphs that open the pour messages are left out).
\<close>

datatype log_entry =
    Text string
  | Equipped string string
  | EquipError string string js_error
  | NoItemFound string
  | OriginSet vec3 real
  | NoSupportingBlock vec3 string
  | CannotEquip string
  | InvalidFacing string
  | LookingToPlace string
  | TargetOccupied string
  | Placed string vec3 vec3
  | PlacedNoUpdate string "string option"
  | AttemptFailed nat string "string option"
  | Pouring real real real
  | LookingAtTarget vec3
  | PourError js_error
  | GoingTo real real real vec3
  | Giving int string int int
  | AlreadyEnough string
  | AttemptToggle string real real real
  | Activated string vec3
  | ActivateError vec3 "string option"
  | BlockNotFound string real real real vec3 string
  | DiggingAt real real real vec3
  | CouldNotDig vec3 "string option"
  | CannotDig vec3 string

text \<open>The capability calls a primitive issues, in order (a ghost trace, not in the source).\<close>

datatype call =
    CallBlockAt vec3
  | CallEquip item string
  | CallLookAt vec3
  | CallWait nat
  | CallPlaceBlock block vec3
  | CallActivateItem
  | CallActivateBlock block
  | CallDig block
  | CallChat chat_message
  | CallGoToPosition real real real

text \<open>
  The capability surface. The five actions that the source wraps in \<^verbatim>\<open>try\<close> (equip, placeBlock,
  activateBlock, activateItem, dig) may raise: they return \<open>Some e\<close> for a thrown \<open>e\<close>, with the
  collaborator state they leave behind. Lookups are pure; \<^verbatim>\<open>lookAt\<close>, \<^verbatim>\<open>wait\<close> and
  \<^verbatim>\<open>chat\<close> settle without a failure outcome. \<^verbatim>\<open>goToPosition\<close> returns a boolean or raises.
\<close>

record 'w env =
  bot_entity_position :: "'w \<Rightarrow> vec3"
  bot_entity_yaw :: "'w \<Rightarrow> real"
  bot_entity_height :: "'w \<Rightarrow> real"
  bot_blockAt :: "'w \<Rightarrow> vec3 \<Rightarrow> block option"
  bot_canDigBlock :: "'w \<Rightarrow> block \<Rightarrow> bool"
  bot_findInventoryItem :: "'w \<Rightarrow> string \<Rightarrow> item option"
  getInventoryCounts :: "'w \<Rightarrow> string \<Rightarrow> int option"
  bot_equip :: "'w \<Rightarrow> item \<Rightarrow> string \<Rightarrow> js_error option \<times> 'w"
  bot_placeBlock :: "'w \<Rightarrow> block \<Rightarrow> vec3 \<Rightarrow> js_error option \<times> 'w"
  bot_activateBlock :: "'w \<Rightarrow> block \<Rightarrow> js_error option \<times> 'w"
  bot_activateItem :: "'w \<Rightarrow> js_error option \<times> 'w"
  bot_dig :: "'w \<Rightarrow> block \<Rightarrow> js_error option \<times> 'w"
  bot_lookAt :: "'w \<Rightarrow> vec3 \<Rightarrow> 'w"
  bot_chat :: "'w \<Rightarrow> chat_message \<Rightarrow> 'w"
  wait :: "'w \<Rightarrow> nat \<Rightarrow> 'w"
  goToPosition :: "'w \<Rightarrow> real \<Rightarrow> real \<Rightarrow> real \<Rightarrow> (js_error + bool) \<times> 'w"

text \<open>
  The bot object as the library sees it: the \<^verbatim>\<open>origin\<close> property it attaches, the
  collaborator state, the lines this library has logged, and the ghost call trace.
\<close>

record 'w bot =
  origin :: "origin option"
  world :: 'w
  output_log :: "log_entry list"
  calls :: "call list"

definition log_line :: "log_entry \<Rightarrow> 'w bot \<Rightarrow> 'w bot" where
  "log_line m s = s\<lparr>output_log := output_log s @ [m]\<rparr>"

definition called :: "call \<Rightarrow> 'w bot \<Rightarrow> 'w bot" where
  "called c s = s\<lparr>calls := calls s @ [c]\<rparr>"

definition new_calls :: "'w bot \<Rightarrow> 'w bot \<Rightarrow> call list" where
  "new_calls s s' = drop (length (calls s)) (calls s')"

definition new_output :: "'w bot \<Rightarrow> 'w bot \<Rightarrow> log_entry list" where
  "new_output s s' = drop (length (output_log s)) (output_log s')"

text \<open>\<^verbatim>\<open>await bot.lookAt(p)\<close>, \<^verbatim>\<open>await wait(bot, ms)\<close> and \<^verbatim>\<open>bot.chat(msg)\<close> as steps.\<close>

definition lookAt_step :: "'w env \<Rightarrow> vec3 \<Rightarrow> 'w bot \<Rightarrow> 'w bot" where
  "lookAt_step env p s = called (CallLookAt p) (s\<lparr>world := bot_lookAt env (world s) p\<rparr>)"

definition wait_step :: "'w env \<Rightarrow> nat \<Rightarrow> 'w bot \<Rightarrow> 'w bot" where
  "wait_step env ms s = called (CallWait ms) (s\<lparr>world := wait env (world s) ms\<rparr>)"

definition chat_step :: "'w env \<Rightarrow> chat_message \<Rightarrow> 'w bot \<Rightarrow> 'w bot" where
  "chat_step env msg s = called (CallChat msg) (s\<lparr>world := bot_chat env (world s) msg\<rparr>)"

section \<open>Origin frame\<close>

text \<open>\<^verbatim>\<open>setOrigin\<close> (rail.js 136-147, cane.js 116-127).\<close>

definition originFrame :: "'w env \<Rightarrow> 'w \<Rightarrow> origin" where
  "originFrame env w = \<lparr>position = clone (bot_entity_position env w), yaw = bot_entity_yaw env w\<rparr>"

definition setOrigin :: "'w env \<Rightarrow> 'w bot \<Rightarrow> bool \<times> 'w bot" where
  "setOrigin env s =
     (let org = originFrame env (world s)
      in (True, log_line (OriginSet (position org) (yaw org)) (s\<lparr>origin := Some org\<rparr>)))"

text \<open>
  The guard \<^verbatim>\<open>if (!bot.origin) { log(...); await setOrigin(bot); }\<close> that opens every
  primitive, returning the frame that \<^verbatim>\<open>bot.origin\<close> holds afterwards.
\<close>

definition ensureOrigin :: "'w env \<Rightarrow> string \<Rightarrow> 'w bot \<Rightarrow> origin \<times> 'w bot" where
  "ensureOrigin env msg s =
     (case origin s of
        Some org \<Rightarrow> (org, s)
      | None \<Rightarrow> (originFrame env (world s), snd (setOrigin env (log_line (Text msg) s))))"

section \<open>Primitives\<close>

definition origin_unset_msg_place :: string where
  "origin_unset_msg_place = ''Origin not set. Setting origin to current current position.''"

definition origin_unset_msg :: string where
  "origin_unset_msg = ''Origin not set. Setting origin to current position.''"

text \<open>\<^verbatim>\<open>equipItem\<close> (rail.js 6-21, cane.js 6-21): the catch clause is the \<open>Some e\<close> branch.\<close>

definition equipItem :: "'w env \<Rightarrow> 'w bot \<Rightarrow> string \<Rightarrow> string \<Rightarrow> bool \<times> 'w bot" where
  "equipItem env s itemName hand =
     (case bot_findInventoryItem env (world s) itemName of
        Some item \<Rightarrow>
          (case bot_equip env (world s) item hand of
             (None, w) \<Rightarrow>
               (True, log_line (Equipped itemName hand)
                        (called (CallEquip item hand) (s\<lparr>world := w\<rparr>)))
           | (Some e, w) \<Rightarrow>
               (False, log_line (EquipError itemName hand e)
                         (called (CallEquip item hand) (s\<lparr>world := w\<rparr>))))
      | None \<Rightarrow> (False, log_line (NoItemFound itemName) s))"

text \<open>
  \<^verbatim>\<open>e.message && e.message.includes("blockUpdate")\<close>: an undefined or empty message is
  falsy. \<open>str_includes s sub\<close> is \<^verbatim>\<open>s.includes(sub)\<close>.
\<close>

fun str_includes :: "string \<Rightarrow> string \<Rightarrow> bool" where
  "str_includes [] sub = (sub = [])"
| "str_includes (c # cs) sub = (take (length sub) (c # cs) = sub \<or> str_includes cs sub)"

definition benign :: "js_error \<Rightarrow> bool" where
  "benign e = (case message e of
                 None \<Rightarrow> False
               | Some m \<Rightarrow> m \<noteq> [] \<and> str_includes m ''blockUpdate'')"

definition maxRetries :: nat where
  "maxRetries = 3"

definition skipAirCheck :: bool where
  "skipAirCheck = True"

text \<open>
  The retry loop of \<^verbatim>\<open>placeOnBlock\<close> (rail.js 76-90, cane.js 56-70), from loop counter
  \<open>retry\<close> on; falling out of the loop is \<^verbatim>\<open>return false\<close>.
\<close>

function place_attempts ::
  "'w env \<Rightarrow> string \<Rightarrow> block \<Rightarrow> vec3 \<Rightarrow> nat \<Rightarrow> 'w bot \<Rightarrow> bool \<times> 'w bot" where
  "place_attempts env itemName blk directionVec retry s =
     (if retry < maxRetries then
        (case bot_placeBlock env (world s) blk directionVec of
           (None, w) \<Rightarrow>
             (True, log_line (Placed itemName (block_position blk) directionVec)
                      (called (CallPlaceBlock blk directionVec) (s\<lparr>world := w\<rparr>)))
         | (Some e, w) \<Rightarrow>
             (if benign e then
                (True, log_line (PlacedNoUpdate itemName (message e))
                         (called (CallPlaceBlock blk directionVec) (s\<lparr>world := w\<rparr>)))
              else
                place_attempts env itemName blk directionVec (retry + 1)
                  (log_line (AttemptFailed (retry + 1) itemName (message e))
                     (called (CallPlaceBlock blk directionVec) (s\<lparr>world := w\<rparr>)))))
      else (False, s))"
  by pat_completeness auto
termination
  by (relation "measure (\<lambda>(env, itemName, blk, directionVec, retry, s). maxRetries - retry)")
     auto

declare place_attempts.simps [simp del]

text \<open>The optional facing step of rail.js 45-62 (absent from cane.js).\<close>

definition lookAtTarget :: "vec3 \<Rightarrow> string \<Rightarrow> vec3 option" where
  "lookAtTarget headPos facingDirection =
     (if facingDirection = ''north'' then Some (v_plus headPos (Vec3 0 0 (-1)))
      else if facingDirection = ''south'' then Some (v_plus headPos (Vec3 0 0 1))
      else if facingDirection = ''east'' then Some (v_plus headPos (Vec3 1 0 0))
      else if facingDirection = ''west'' then Some (v_plus headPos (Vec3 (-1) 0 0))
      else if facingDirection = ''up'' then Some (v_plus headPos (Vec3 0 1 0))
      else if facingDirection = ''down'' then Some (v_plus headPos (Vec3 0 (-1) 0))
      else None)"

definition face :: "'w env \<Rightarrow> string option \<Rightarrow> 'w bot \<Rightarrow> 'w bot" where
  "face env facingDirection s =
     (case facingDirection of
        None \<Rightarrow> s
      | Some f \<Rightarrow>
          (if f = [] then s
           else
             (let headPos = v_plus (bot_entity_position env (world s))
                              (Vec3 0 (bot_entity_height env (world s)) 0)
              in case lookAtTarget headPos f of
                   None \<Rightarrow> log_line (InvalidFacing f) s
                 | Some target \<Rightarrow>
                     wait_step env 200 (lookAt_step env target (log_line (LookingToPlace f) s)))))"

text \<open>The occupancy pre-check of rail.js 67-74 and cane.js 47-54, switched off by \<open>skipAirCheck\<close>.\<close>

definition airCheck :: "'w env \<Rightarrow> 'w bot \<Rightarrow> vec3 \<Rightarrow> vec3 \<Rightarrow> string option" where
  "airCheck env s absPos directionVec =
     (if \<not> skipAirCheck then
        (case bot_blockAt env (world s) (v_plus absPos directionVec) of
           None \<Rightarrow> None
         | Some targetBlock \<Rightarrow> (if name targetBlock \<noteq> ''air'' then Some (name targetBlock) else None))
      else None)"

text \<open>
  \<^verbatim>\<open>placeOnBlock\<close> of rail.js (23-91). \<open>facingDirection = None\<close> is \<^verbatim>\<open>null\<close>; the defaults
  of the optional parameters are \<open>default_directionVec\<close> and \<open>None\<close>.
\<close>

definition default_directionVec :: vec3 where
  "default_directionVec = Vec3 0 1 0"

definition placeOnBlock ::
  "'w env \<Rightarrow> 'w bot \<Rightarrow> string \<Rightarrow> offset \<Rightarrow> vec3 \<Rightarrow> string option \<Rightarrow> bool \<times> 'w bot" where
  "placeOnBlock env s itemName coords directionVec facingDirection =
     (case ensureOrigin env origin_unset_msg_place s of
        (org, s1) \<Rightarrow>
          (case coords of
             (x, y, z) \<Rightarrow>
               (let absX = vx (position org) + x;
                    absY = vy (position org) + y;
                    absZ = vz (position org) - z;
                    s2 = called (CallBlockAt (Vec3 absX absY absZ)) s1
                in case bot_blockAt env (world s1) (Vec3 absX absY absZ) of
                     None \<Rightarrow> (False, log_line (NoSupportingBlock (Vec3 absX absY absZ) itemName) s2)
                   | Some blk \<Rightarrow>
                       (case equipItem env s2 itemName ''hand'' of
                          (False, s3) \<Rightarrow> (False, log_line (CannotEquip itemName) s3)
                        | (True, s3) \<Rightarrow>
                            (let s4 = face env facingDirection s3
                             in case airCheck env s4 (Vec3 absX absY absZ) directionVec of
                                  Some occupant \<Rightarrow> (False, log_line (TargetOccupied occupant) s4)
                                | None \<Rightarrow> place_attempts env itemName blk directionVec 0 s4)))))"

text \<open>\<^verbatim>\<open>placeOnBlock\<close> of cane.js (23-71): the same function without the facing step.\<close>

definition placeOnBlock_cane ::
  "'w env \<Rightarrow> 'w bot \<Rightarrow> string \<Rightarrow> offset \<Rightarrow> vec3 \<Rightarrow> bool \<times> 'w bot" where
  "placeOnBlock_cane env s itemName coords directionVec =
     (case ensureOrigin env origin_unset_msg_place s of
        (org, s1) \<Rightarrow>
          (case coords of
             (x, y, z) \<Rightarrow>
               (let absX = vx (position org) + x;
                    absY = vy (position org) + y;
                    absZ = vz (position org) - z;
                    s2 = called (CallBlockAt (Vec3 absX absY absZ)) s1
                in case bot_blockAt env (world s1) (Vec3 absX absY absZ) of
                     None \<Rightarrow> (False, log_line (NoSupportingBlock (Vec3 absX absY absZ) itemName) s2)
                   | Some blk \<Rightarrow>
                       (case equipItem env s2 itemName ''hand'' of
                          (False, s3) \<Rightarrow> (False, log_line (CannotEquip itemName) s3)
                        | (True, s3) \<Rightarrow>
                            (case airCheck env s3 (Vec3 absX absY absZ) directionVec of
                               Some occupant \<Rightarrow> (False, log_line (TargetOccupied occupant) s3)
                             | None \<Rightarrow> place_attempts env itemName blk directionVec 0 s3)))))"

text \<open>
  \<^verbatim>\<open>pourWaterInHole\<close> (rail.js 93-134, cane.js 73-114). The stored yaw is read into a
  local that nothing uses; the whole action sequence sits in one \<^verbatim>\<open>try\<close>.
\<close>

definition pour_lookAtPoint :: "origin \<Rightarrow> real \<Rightarrow> real \<Rightarrow> real \<Rightarrow> vec3" where
  "pour_lookAtPoint org dx dy dz =
     (let yaw_read = yaw org;
          forwardVec = Vec3 0 0 (-1);
          rightVec = Vec3 1 0 0
      in v_add (v_add (v_add (clone (position org)) (scaled rightVec dx)) (Vec3 0 dy 0))
           (scaled forwardVec dz))"

definition pourWaterInHole ::
  "'w env \<Rightarrow> 'w bot \<Rightarrow> real \<Rightarrow> real \<Rightarrow> real \<Rightarrow> bool \<times> 'w bot" where
  "pourWaterInHole env s dx dy dz =
     (case ensureOrigin env origin_unset_msg
             (log_line (Pouring dx dy dz) s) of
        (org, s1) \<Rightarrow>
          (let lookAtPoint = pour_lookAtPoint org dx dy dz
           in case equipItem env s1 ''water_bucket'' ''hand'' of
                (False, s2) \<Rightarrow> (False, log_line (Text ''Cannot equip water_bucket.'') s2)
              | (True, s2) \<Rightarrow>
                  (let s3 = log_line (LookingAtTarget lookAtPoint)
                              (log_line (Text ''Equipped water bucket.'') s2);
                       s4 = wait_step env 200 (lookAt_step env lookAtPoint s3)
                   in case bot_activateItem env (world s4) of
                        (None, w) \<Rightarrow>
                          (True, wait_step env 1000
                                   (log_line (Text ''Successfully poured water into the hole.'')
                                      (called CallActivateItem (s4\<lparr>world := w\<rparr>))))
                      | (Some e, w) \<Rightarrow>
                          (False, log_line (PourError e)
                                    (called CallActivateItem (s4\<lparr>world := w\<rparr>))))))"

text \<open>\<^verbatim>\<open>walkTo\<close> (rail.js 149-170, cane.js 129-150); a raise of \<^verbatim>\<open>goToPosition\<close> is \<open>Inl\<close>.\<close>

definition walkTo_targetPos :: "origin \<Rightarrow> real \<Rightarrow> real \<Rightarrow> real \<Rightarrow> vec3" where
  "walkTo_targetPos org dx dy dz =
     Vec3 (vx (position org) + dx) (vy (position org) + dy) (vz (position org) - dz)"

definition walkTo ::
  "'w env \<Rightarrow> 'w bot \<Rightarrow> real \<Rightarrow> real \<Rightarrow> real \<Rightarrow> (js_error + bool) \<times> 'w bot" where
  "walkTo env s dx dy dz =
     (case ensureOrigin env origin_unset_msg s of
        (org, s1) \<Rightarrow>
          (let targetPos = walkTo_targetPos org dx dy dz;
               s2 = log_line (GoingTo dx dy dz targetPos) s1
           in case goToPosition env (world s2) (vx targetPos) (vy targetPos) (vz targetPos) of
                (r, w) \<Rightarrow>
                  (r, called (CallGoToPosition (vx targetPos) (vy targetPos) (vz targetPos))
                        (s2\<lparr>world := w\<rparr>))))"

text \<open>
  \<^verbatim>\<open>acquireItems\<close> (rail.js 172-209, cane.js 152-194). The object literal is an association
  list in insertion order, which is the order \<^verbatim>\<open>for ... in\<close> visits its keys;
  \<open>acquireItems_entry\<close> is the loop body, \<^verbatim>\<open>|| 0\<close> the \<open>None\<close> case of the count.
\<close>

definition acquireItems_entry :: "'w env \<Rightarrow> 'w bot \<Rightarrow> string \<times> int \<Rightarrow> 'w bot" where
  "acquireItems_entry env s entry =
     (case entry of
        (itemName, requiredAmount) \<Rightarrow>
          (let currentAmount = (case getInventoryCounts env (world s) itemName of
                                  None \<Rightarrow> 0
                                | Some c \<Rightarrow> c)
           in if currentAmount < requiredAmount then
                (let amountToGive = requiredAmount - currentAmount
                 in wait_step env 200
                      (chat_step env (Give itemName amountToGive)
                         (log_line (Giving currentAmount itemName requiredAmount amountToGive) s)))
              else log_line (AlreadyEnough itemName) s))"

fun acquireItems_loop :: "'w env \<Rightarrow> 'w bot \<Rightarrow> (string \<times> int) list \<Rightarrow> 'w bot" where
  "acquireItems_loop env s [] = s"
| "acquireItems_loop env s (entry # rest) =
     acquireItems_loop env (acquireItems_entry env s entry) rest"

definition acquireItems_with :: "'w env \<Rightarrow> 'w bot \<Rightarrow> (string \<times> int) list \<Rightarrow> bool \<times> 'w bot" where
  "acquireItems_with env s requiredItems =
     (True, log_line (Text ''Finished acquiring items.'')
              (acquireItems_loop env
                 (log_line (Text ''Checking and acquiring necessary items...'') s) requiredItems))"

definition requiredItems_rail :: "(string \<times> int) list" where
  "requiredItems_rail =
     [(''rail'', 1), (''smooth_stone'', 8), (''piston'', 2), (''observer'', 1), (''redstone'', 5),
      (''hopper_minecart'', 1), (''redstone_torch'', 2), (''repeater'', 1), (''lever'', 1)]"

definition requiredItems_cane :: "(string \<times> int) list" where
  "requiredItems_cane =
     [(''chest'', 2), (''hopper'', 6), (''rail'', 3), (''powered_rail'', 2), (''oak_planks'', 45),
      (''redstone_block'', 2), (''grass_block'', 17), (''water_bucket'', 5), (''piston'', 5),
      (''observer'', 5), (''redstone'', 5), (''sugar_cane'', 5), (''glass'', 21),
      (''hopper_minecart'', 1)]"

definition acquireItems_rail :: "'w env \<Rightarrow> 'w bot \<Rightarrow> bool \<times> 'w bot" where
  "acquireItems_rail env s = acquireItems_with env s requiredItems_rail"

definition acquireItems_cane :: "'w env \<Rightarrow> 'w bot \<Rightarrow> bool \<times> 'w bot" where
  "acquireItems_cane env s = acquireItems_with env s requiredItems_cane"

text \<open>\<^verbatim>\<open>block?.name || fallback\<close>: a missing block or an empty name gives the fallback.\<close>

definition name_or :: "block option \<Rightarrow> string \<Rightarrow> string" where
  "name_or b fallback =
     (case b of None \<Rightarrow> fallback | Some blk \<Rightarrow> (if name blk = [] then fallback else name blk))"

text \<open>\<^verbatim>\<open>toggleBlock\<close> (rail.js 253-278). It has no return statement: only the bot changes.\<close>

definition toggleBlock_abs :: "origin \<Rightarrow> real \<Rightarrow> real \<Rightarrow> real \<Rightarrow> vec3" where
  "toggleBlock_abs org x y z =
     (let origin_pos = position org;
          abs_x = vx origin_pos + x;
          abs_y = vy origin_pos + y;
          abs_z = vz origin_pos - z
      in Vec3 abs_x abs_y abs_z)"

definition toggleBlock ::
  "'w env \<Rightarrow> 'w bot \<Rightarrow> string \<Rightarrow> real \<Rightarrow> real \<Rightarrow> real \<Rightarrow> 'w bot" where
  "toggleBlock env s blockType x y z =
     (case ensureOrigin env origin_unset_msg
             (log_line (AttemptToggle blockType x y z) s) of
        (org, s1) \<Rightarrow>
          (let pos = floored (toggleBlock_abs org x y z);
               found = bot_blockAt env (world s1) pos;
               s2 = called (CallBlockAt pos) s1
           in case found of
                Some blk \<Rightarrow>
                  (if name blk = blockType then
                     (case bot_activateBlock env (world s2) blk of
                        (None, w) \<Rightarrow>
                          log_line (Activated blockType pos)
                            (called (CallActivateBlock blk) (s2\<lparr>world := w\<rparr>))
                      | (Some e, w) \<Rightarrow>
                          log_line (ActivateError pos (message e))
                            (called (CallActivateBlock blk) (s2\<lparr>world := w\<rparr>)))
                   else log_line (BlockNotFound blockType x y z pos (name_or found ''nothing'')) s2)
              | None \<Rightarrow>
                  log_line (BlockNotFound blockType x y z pos (name_or found ''nothing'')) s2))"

text \<open>
  \<^verbatim>\<open>dig\<close> (rail.js 280-310). \<open>dig_offset\<close> is the loop body for one offset, with the origin
  position read once before the loop; there is no return statement.
\<close>

definition dig_pos :: "vec3 \<Rightarrow> offset \<Rightarrow> vec3" where
  "dig_pos origin_pos off =
     (case off of
        (rel_x, rel_y, rel_z) \<Rightarrow>
          floored (Vec3 (vx origin_pos + rel_x) (vy origin_pos + rel_y) (vz origin_pos - rel_z)))"

definition dig_offset :: "'w env \<Rightarrow> vec3 \<Rightarrow> 'w bot \<Rightarrow> offset \<Rightarrow> 'w bot" where
  "dig_offset env origin_pos s off =
     (case off of
        (rel_x, rel_y, rel_z) \<Rightarrow>
          (let pos_to_dig = dig_pos origin_pos off;
               found = bot_blockAt env (world s) pos_to_dig;
               s1 = called (CallBlockAt pos_to_dig) s
           in case found of
                Some blk \<Rightarrow>
                  (if bot_canDigBlock env (world s1) blk \<and> name blk \<noteq> ''air'' then
                     (let s2 = log_line (DiggingAt rel_x rel_y rel_z pos_to_dig) s1
                      in case bot_dig env (world s2) blk of
                           (None, w) \<Rightarrow> called (CallDig blk) (s2\<lparr>world := w\<rparr>)
                         | (Some e, w) \<Rightarrow>
                             log_line (CouldNotDig pos_to_dig (message e))
                               (called (CallDig blk) (s2\<lparr>world := w\<rparr>)))
                   else log_line (CannotDig pos_to_dig (name_or found ''out of sight'')) s1)
              | None \<Rightarrow> log_line (CannotDig pos_to_dig (name_or found ''out of sight'')) s1))"

fun dig_loop :: "'w env \<Rightarrow> vec3 \<Rightarrow> 'w bot \<Rightarrow> offset list \<Rightarrow> 'w bot" where
  "dig_loop env origin_pos s [] = s"
| "dig_loop env origin_pos s (off # rest) =
     dig_loop env origin_pos (dig_offset env origin_pos s off) rest"

definition dig :: "'w env \<Rightarrow> 'w bot \<Rightarrow> offset list \<Rightarrow> 'w bot" where
  "dig env s blocks_to_dig =
     (case ensureOrigin env origin_unset_msg
             (log_line (Text ''Digging based on coordinate list...'') s) of
        (org, s1) \<Rightarrow> dig_loop env (position org) s1 blocks_to_dig)"

section \<open>One scripted step\<close>




section \<open>Reading the call trace\<close>

fun blockAt_queries :: "call list \<Rightarrow> vec3 list" where
  "blockAt_queries [] = []"
| "blockAt_queries (CallBlockAt p # cs) = p # blockAt_queries cs"
| "blockAt_queries (c # cs) = blockAt_queries cs"

fun lookAt_targets :: "call list \<Rightarrow> vec3 list" where
  "lookAt_targets [] = []"
| "lookAt_targets (CallLookAt p # cs) = p # lookAt_targets cs"
| "lookAt_targets (c # cs) = lookAt_targets cs"

fun place_calls :: "call list \<Rightarrow> (block \<times> vec3) list" where
  "place_calls [] = []"
| "place_calls (CallPlaceBlock b d # cs) = (b, d) # place_calls cs"
| "place_calls (c # cs) = place_calls cs"

fun activate_calls :: "call list \<Rightarrow> block list" where
  "activate_calls [] = []"
| "activate_calls (CallActivateBlock b # cs) = b # activate_calls cs"
| "activate_calls (c # cs) = activate_calls cs"

fun dig_calls :: "call list \<Rightarrow> block list" where
  "dig_calls [] = []"
| "dig_calls (CallDig b # cs) = b # dig_calls cs"
| "dig_calls (c # cs) = dig_calls cs"

text \<open>The quantities requested for one item, in the order the requests were sent.\<close>

fun give_requests :: "string \<Rightarrow> call list \<Rightarrow> int list" where
  "give_requests itemName [] = []"
| "give_requests itemName (CallChat (Give n q) # cs) =
     (if n = itemName then q # give_requests itemName cs else give_requests itemName cs)"
| "give_requests itemName (c # cs) = give_requests itemName cs"

text \<open>What a run leaves behind apart from the origin frame.\<close>

definition observable :: "'w bot \<Rightarrow> 'w \<times> log_entry list \<times> call list" where
  "observable s = (world s, output_log s, calls s)"

section \<open>A deterministic mock environment\<close>

text \<open>
  A small voxel world for concrete runs: cells hold a block name and a layer count,
  \<open>m_faults\<close> scripts the outcome of the coming fallible actions (\<open>Some e\<close> raises \<open>e\<close> and
  does nothing else). Placing an item on a cell that already holds that item adds a layer,
  as layered blocks do.
\<close>

record mock_world =
  m_position :: vec3
  m_blocks :: "vec3 \<Rightarrow> (string \<times> nat) option"
  m_counts :: "string \<Rightarrow> int"
  m_held :: "string option"
  m_faults :: "js_error option list"

definition next_fault :: "mock_world \<Rightarrow> js_error option \<times> mock_world" where
  "next_fault w = (case m_faults w of [] \<Rightarrow> (None, w) | f # rest \<Rightarrow> (f, w\<lparr>m_faults := rest\<rparr>))"

definition mock_blockAt :: "mock_world \<Rightarrow> vec3 \<Rightarrow> block option" where
  "mock_blockAt w p =
     (case m_blocks w (floored p) of
        None \<Rightarrow> None
      | Some (n, k) \<Rightarrow> Some \<lparr>name = n, block_position = floored p, metadata = k\<rparr>)"

definition mock_find :: "mock_world \<Rightarrow> string \<Rightarrow> item option" where
  "mock_find w n = (if 0 < m_counts w n then Some (Item n (m_counts w n)) else None)"

definition mock_counts :: "mock_world \<Rightarrow> string \<Rightarrow> int option" where
  "mock_counts w n = (if 0 < m_counts w n then Some (m_counts w n) else None)"

definition mock_equip :: "mock_world \<Rightarrow> item \<Rightarrow> string \<Rightarrow> js_error option \<times> mock_world" where
  "mock_equip w it hand =
     (case next_fault w of
        (Some e, w') \<Rightarrow> (Some e, w')
      | (None, w') \<Rightarrow> (None, w'\<lparr>m_held := Some (item_name it)\<rparr>))"

definition mock_placeBlock :: "mock_world \<Rightarrow> block \<Rightarrow> vec3 \<Rightarrow> js_error option \<times> mock_world" where
  "mock_placeBlock w blk dir =
     (case next_fault w of
        (Some e, w') \<Rightarrow> (Some e, w')
      | (None, w') \<Rightarrow>
          (let target = floored (v_plus (block_position blk) dir)
           in case m_held w' of
                None \<Rightarrow> (Some (JsError (Some ''must be holding an item to place'')), w')
              | Some h \<Rightarrow>
                  (case m_blocks w' target of
                     None \<Rightarrow> (Some (JsError (Some ''No block has been placed'')), w')
                   | Some (n, k) \<Rightarrow>
                       (if n = ''air'' then
                          (None, w'\<lparr>m_blocks := (m_blocks w')(target := Some (h, 0))\<rparr>)
                        else if n = h then
                          (None, w'\<lparr>m_blocks := (m_blocks w')(target := Some (h, k + 1))\<rparr>)
                        else (Some (JsError (Some ''No block has been placed'')), w')))))"

definition mock_activateBlock :: "mock_world \<Rightarrow> block \<Rightarrow> js_error option \<times> mock_world" where
  "mock_activateBlock w blk =
     (case next_fault w of
        (Some e, w') \<Rightarrow> (Some e, w')
      | (None, w') \<Rightarrow>
          (None, w'\<lparr>m_blocks := (m_blocks w')
                     (block_position blk := Some (name blk, if metadata blk = 0 then 1 else 0))\<rparr>))"

definition mock_dig :: "mock_world \<Rightarrow> block \<Rightarrow> js_error option \<times> mock_world" where
  "mock_dig w blk =
     (case next_fault w of
        (Some e, w') \<Rightarrow> (Some e, w')
      | (None, w') \<Rightarrow>
          (None, w'\<lparr>m_blocks := (m_blocks w')(block_position blk := Some (''air'', 0))\<rparr>))"

definition mock_chat :: "mock_world \<Rightarrow> chat_message \<Rightarrow> mock_world" where
  "mock_chat w msg =
     (case msg of Give n q \<Rightarrow> w\<lparr>m_counts := (m_counts w)(n := m_counts w n + q)\<rparr>)"

definition mock_env :: "mock_world env" where
  "mock_env =
     \<lparr>bot_entity_position = m_position,
      bot_entity_yaw = (\<lambda>w. 0),
      bot_entity_height = (\<lambda>w. 9 / 5),
      bot_blockAt = mock_blockAt,
      bot_canDigBlock = (\<lambda>w blk. name blk \<noteq> ''bedrock''),
      bot_findInventoryItem = mock_find,
      getInventoryCounts = mock_counts,
      bot_equip = mock_equip,
      bot_placeBlock = mock_placeBlock,
      bot_activateBlock = mock_activateBlock,
      bot_activateItem = next_fault,
      bot_dig = mock_dig,
      bot_lookAt = (\<lambda>w p. w),
      bot_chat = mock_chat,
      wait = (\<lambda>w ms. w),
      goToPosition = (\<lambda>w x y z. (Inr True, w\<lparr>m_position := Vec3 x y z\<rparr>))\<rparr>"

text \<open>Stone up to height 63, air above; the bot stands at (0, 64, 0) with empty hands.\<close>

definition flat_world :: mock_world where
  "flat_world =
     \<lparr>m_position = Vec3 0 64 0,
      m_blocks = (\<lambda>p. if vy p < 64 then Some (''stone'', 0) else Some (''air'', 0)),
      m_counts = (\<lambda>n. 0),
      m_held = None,
      m_faults = []\<rparr>"

text \<open>A bot that has no origin yet and has logged and called nothing.\<close>

definition bot_in :: "'w \<Rightarrow> 'w bot" where
  "bot_in w = \<lparr>origin = None, world = w, output_log = [], calls = []\<rparr>"

text \<open>Worlds, errors and a block for the example runs.\<close>

definition lever_world :: mock_world where
  "lever_world = flat_world\<lparr>m_counts := (\<lambda>n. 0)(''lever'' := 1)\<rparr>"

definition torch_world :: "int \<Rightarrow> mock_world" where
  "torch_world k = flat_world\<lparr>m_counts := (\<lambda>n. 0)(''torch'' := k)\<rparr>"

definition snow_world :: mock_world where
  "snow_world = flat_world\<lparr>m_counts := (\<lambda>n. 0)(''snow'' := 8)\<rparr>"

definition void_world :: mock_world where
  "void_world = flat_world\<lparr>m_blocks := (\<lambda>p. None)\<rparr>"

definition lever_at_cell :: mock_world where
  "lever_at_cell =
     flat_world\<lparr>m_blocks := (m_blocks flat_world)(Vec3 1 64 (-2) := Some (''lever'', 0))\<rparr>"

definition pit_world :: mock_world where
  "pit_world =
     flat_world\<lparr>m_blocks := (m_blocks flat_world)(Vec3 0 63 (-2) := Some (''air'', 0))\<rparr>"

definition no_block_placed :: js_error where
  "no_block_placed = JsError (Some ''No block has been placed'')"

definition update_timeout :: js_error where
  "update_timeout = JsError (Some ''Event blockUpdate did not fire within timeout'')"

definition stone_below :: block where
  "stone_below = \<lparr>name = ''stone'', block_position = Vec3 0 63 (-1), metadata = 0\<rparr>"


section \<open>Notions used in the statements\<close>

text \<open>
  The frame a primitive resolves against: the stored origin, or else the one its guard
  creates from the bot's current position and yaw.
\<close>

definition frame :: "'w env \<Rightarrow> 'w bot \<Rightarrow> origin" where
  "frame env s = (case origin s of Some org \<Rightarrow> org | None \<Rightarrow> originFrame env (world s))"

text \<open>The live count \<^verbatim>\<open>world.getInventoryCounts(bot)[itemName] || 0\<close>.\<close>

definition current_count :: "'w env \<Rightarrow> 'w \<Rightarrow> string \<Rightarrow> int" where
  "current_count env w itemName =
     (case getInventoryCounts env w itemName of None \<Rightarrow> 0 | Some c \<Rightarrow> c)"

text \<open>What the loop sends: only give commands with a positive quantity, each followed by a wait.\<close>

definition provisioning_call :: "string set \<Rightarrow> call \<Rightarrow> bool" where
  "provisioning_call names c =
     (case c of
        CallChat (Give n q) \<Rightarrow> 0 < q \<and> n \<in> names
      | CallWait ms \<Rightarrow> ms = 200
      | _ \<Rightarrow> False)"

text \<open>A cell the dig loop leaves alone: unloaded, not diggable, or air.\<close>

definition nothing_to_dig :: "'w env \<Rightarrow> 'w \<Rightarrow> vec3 \<Rightarrow> offset \<Rightarrow> bool" where
  "nothing_to_dig env w origin_pos off =
     (case bot_blockAt env w (dig_pos origin_pos off) of
        None \<Rightarrow> True
      | Some blk \<Rightarrow> \<not> (bot_canDigBlock env w blk \<and> name blk \<noteq> ''air''))"

section \<open>Basic facts\<close>

lemma log_line_simps [simp]:
  "origin (log_line m s) = origin s"
  "world (log_line m s) = world s"
  "calls (log_line m s) = calls s"
  "output_log (log_line m s) = output_log s @ [m]"
  by (simp_all add: log_line_def)

lemma called_simps [simp]:
  "origin (called c s) = origin s"
  "world (called c s) = world s"
  "calls (called c s) = calls s @ [c]"
  "output_log (called c s) = output_log s"
  by (simp_all add: called_def)

lemma lookAt_step_simps [simp]:
  "origin (lookAt_step env p s) = origin s"
  "world (lookAt_step env p s) = bot_lookAt env (world s) p"
  "calls (lookAt_step env p s) = calls s @ [CallLookAt p]"
  "output_log (lookAt_step env p s) = output_log s"
  by (simp_all add: lookAt_step_def)

lemma wait_step_simps [simp]:
  "origin (wait_step env ms s) = origin s"
  "world (wait_step env ms s) = wait env (world s) ms"
  "calls (wait_step env ms s) = calls s @ [CallWait ms]"
  "output_log (wait_step env ms s) = output_log s"
  by (simp_all add: wait_step_def)

lemma chat_step_simps [simp]:
  "origin (chat_step env msg s) = origin s"
  "world (chat_step env msg s) = bot_chat env (world s) msg"
  "calls (chat_step env msg s) = calls s @ [CallChat msg]"
  "output_log (chat_step env msg s) = output_log s"
  by (simp_all add: chat_step_def)

lemma frame_simps [simp]:
  "frame env (log_line m s) = frame env s"
  "frame env (called c s) = frame env s"
  "origin s = Some org \<Longrightarrow> frame env s = org"
  by (simp_all add: frame_def split: option.splits)

lemma ensureOrigin_fields [simp]:
  "fst (ensureOrigin env msg s) = frame env s"
  "world (snd (ensureOrigin env msg s)) = world s"
  "calls (snd (ensureOrigin env msg s)) = calls s"
  "origin (snd (ensureOrigin env msg s)) = Some (frame env s)"
  by (simp_all add: ensureOrigin_def setOrigin_def frame_def Let_def split: option.splits)


lemma blockAt_queries_append [simp]:
  "blockAt_queries (xs @ ys) = blockAt_queries xs @ blockAt_queries ys"
  by (induction xs rule: blockAt_queries.induct) simp_all

lemma lookAt_targets_append [simp]:
  "lookAt_targets (xs @ ys) = lookAt_targets xs @ lookAt_targets ys"
  by (induction xs rule: lookAt_targets.induct) simp_all

lemma place_calls_append [simp]:
  "place_calls (xs @ ys) = place_calls xs @ place_calls ys"
  by (induction xs rule: place_calls.induct) simp_all

lemma activate_calls_append [simp]:
  "activate_calls (xs @ ys) = activate_calls xs @ activate_calls ys"
  by (induction xs rule: activate_calls.induct) simp_all

lemma dig_calls_append [simp]:
  "dig_calls (xs @ ys) = dig_calls xs @ dig_calls ys"
  by (induction xs rule: dig_calls.induct) simp_all

lemma give_requests_append [simp]:
  "give_requests n (xs @ ys) = give_requests n xs @ give_requests n ys"
  by (induction n xs rule: give_requests.induct) simp_all

lemma place_calls_replicate [simp]:
  "place_calls (replicate n (CallPlaceBlock b d)) = replicate n (b, d)"
  by (induction n) simp_all

lemma equipItem_fields:
  "calls (snd (equipItem env s itemName hand)) =
     calls s @ (case bot_findInventoryItem env (world s) itemName of
                  None \<Rightarrow> [] | Some item \<Rightarrow> [CallEquip item hand])"
  "origin (snd (equipItem env s itemName hand)) = origin s"
  by (simp_all add: equipItem_def split: option.splits prod.splits)

lemma equipItem_place_calls [simp]:
  "place_calls (calls (snd (equipItem env s itemName hand))) = place_calls (calls s)"
  by (simp add: equipItem_fields split: option.splits)

lemma face_fields:
  "place_calls (calls (face env fd s)) = place_calls (calls s)"
  "origin (face env fd s) = origin s"
  "\<exists>cs. calls (face env fd s) = calls s @ cs \<and> place_calls cs = []"
  by (simp_all add: face_def Let_def split: option.splits)

text \<open>\<open>str_includes\<close> is the substring test.\<close>

lemma take_is_sub: "(take (length sub) xs = sub) = (\<exists>post. xs = sub @ post)"
  by (metis append_eq_conv_conj append_take_drop_id)

lemma str_includes_iff: "str_includes s sub = (\<exists>pre post. s = pre @ sub @ post)"
proof (induction s)
  case Nil
  show ?case by auto
next
  case (Cons c cs)
  have "(\<exists>pre post. c # cs = pre @ sub @ post)
          = ((\<exists>post. c # cs = sub @ post) \<or> (\<exists>pre post. cs = pre @ sub @ post))"
  proof
    assume "\<exists>pre post. c # cs = pre @ sub @ post"
    then obtain pre post where e: "c # cs = pre @ sub @ post" by blast
    show "(\<exists>post. c # cs = sub @ post) \<or> (\<exists>pre post. cs = pre @ sub @ post)"
    proof (cases pre)
      case Nil
      with e show ?thesis by auto
    next
      case (Cons a pre')
      with e have "cs = pre' @ sub @ post" by simp
      then show ?thesis by blast
    qed
  next
    assume "(\<exists>post. c # cs = sub @ post) \<or> (\<exists>pre post. cs = pre @ sub @ post)"
    then show "\<exists>pre post. c # cs = pre @ sub @ post"
    proof
      assume "\<exists>post. c # cs = sub @ post"
      then obtain post where "c # cs = [] @ sub @ post" by auto
      then show ?thesis by blast
    next
      assume "\<exists>pre post. cs = pre @ sub @ post"
      then obtain pre post where "c # cs = (c # pre) @ sub @ post" by auto
      then show ?thesis by blast
    qed
  qed
  then show ?case
    using Cons.IH by (simp only: str_includes.simps take_is_sub)
qed

text \<open>Unfolding rules for concrete runs on the mock environment.\<close>

lemmas mock_defs =
  mock_env_def mock_blockAt_def mock_find_def mock_counts_def mock_equip_def
  mock_placeBlock_def mock_activateBlock_def mock_dig_def mock_chat_def next_fault_def
  bot_in_def flat_world_def floored_def v_plus_def default_directionVec_def

lemmas run_defs =
  placeOnBlock_def ensureOrigin_def setOrigin_def originFrame_def clone_def equipItem_def
  face_def airCheck_def skipAirCheck_def place_attempts.simps maxRetries_def Let_def

section \<open>Equipping\<close>

text \<open>
  C3. \<^verbatim>\<open>equipItem\<close> always returns a boolean. When the item is absent from the inventory it
  returns false, calls nothing, leaves the collaborator untouched and logs the absence. When
  the item is present it attempts the equip exactly once and returns true if the attempt
  succeeds, false (with the error logged) if the attempt raises.
\<close>

theorem equipItem_never_raises:
  "(bot_findInventoryItem env (world s) itemName = None \<longrightarrow>
      fst (equipItem env s itemName hand) = False
      \<and> new_calls s (snd (equipItem env s itemName hand)) = []
      \<and> world (snd (equipItem env s itemName hand)) = world s
      \<and> new_output s (snd (equipItem env s itemName hand)) = [NoItemFound itemName])
   \<and> (\<forall>item. bot_findInventoryItem env (world s) itemName = Some item \<longrightarrow>
      new_calls s (snd (equipItem env s itemName hand)) = [CallEquip item hand]
      \<and> world (snd (equipItem env s itemName hand)) = snd (bot_equip env (world s) item hand)
      \<and> (case fst (bot_equip env (world s) item hand) of
            None \<Rightarrow> fst (equipItem env s itemName hand) = True
                    \<and> new_output s (snd (equipItem env s itemName hand)) = [Equipped itemName hand]
          | Some e \<Rightarrow> fst (equipItem env s itemName hand) = False
                    \<and> new_output s (snd (equipItem env s itemName hand))
                        = [EquipError itemName hand e]))"
  by (auto simp: equipItem_def new_calls_def new_output_def split: option.splits prod.splits)

theorem equipItem_never_raises_witness:
  "bot_findInventoryItem mock_env (world (bot_in flat_world)) ''lever'' = None
   \<and> fst (equipItem mock_env (bot_in flat_world) ''lever'' ''hand'') = False
   \<and> bot_findInventoryItem mock_env (world (bot_in lever_world)) ''lever'' = Some (Item ''lever'' 1)
   \<and> fst (equipItem mock_env (bot_in lever_world) ''lever'' ''hand'') = True
   \<and> fst (equipItem mock_env
             (bot_in (lever_world\<lparr>m_faults := [Some (JsError (Some ''cannot equip''))]\<rparr>))
             ''lever'' ''hand'') = False"
  using equipItem_never_raises [of mock_env "bot_in flat_world" "''lever''" "''hand''"]
    equipItem_never_raises [of mock_env "bot_in lever_world" "''lever''" "''hand''"]
    equipItem_never_raises [of mock_env
      "bot_in (lever_world\<lparr>m_faults := [Some (JsError (Some ''cannot equip''))]\<rparr>)"
      "''lever''" "''hand''"]
  by (simp add: mock_env_def bot_in_def flat_world_def lever_world_def mock_find_def
      mock_equip_def next_fault_def)

section \<open>The retry loop\<close>

text \<open>The loop makes at most \<open>maxRetries - retry\<close> further attempts, and nothing else.\<close>

lemma place_attempts_calls:
  "\<exists>n. n \<le> maxRetries - retry
       \<and> calls (snd (place_attempts env itemName blk dir retry s))
           = calls s @ replicate n (CallPlaceBlock blk dir)
       \<and> (\<not> fst (place_attempts env itemName blk dir retry s) \<longrightarrow> n = maxRetries - retry)"
proof (induction env itemName blk dir retry s rule: place_attempts.induct)
  case (1 env itemName blk dir retry s)
  show ?case
  proof (cases "retry < maxRetries")
    case False
    then show ?thesis
      by (simp add: place_attempts.simps [of env itemName blk dir retry s])
  next
    case True
    obtain r w where pb: "bot_placeBlock env (world s) blk dir = (r, w)"
      by (cases "bot_placeBlock env (world s) blk dir")
    show ?thesis
    proof (cases r)
      case None
      with True pb have
        "calls (snd (place_attempts env itemName blk dir retry s))
           = calls s @ replicate 1 (CallPlaceBlock blk dir)"
        "fst (place_attempts env itemName blk dir retry s)"
        by (simp_all add: place_attempts.simps [of env itemName blk dir retry s])
      moreover from True have "1 \<le> maxRetries - retry" by simp
      ultimately show ?thesis by blast
    next
      case (Some e)
      show ?thesis
      proof (cases "benign e")
        case b: True
        with True pb Some have
          "calls (snd (place_attempts env itemName blk dir retry s))
             = calls s @ replicate 1 (CallPlaceBlock blk dir)"
          "fst (place_attempts env itemName blk dir retry s)"
          by (simp_all add: place_attempts.simps [of env itemName blk dir retry s])
        moreover from True have "1 \<le> maxRetries - retry" by simp
        ultimately show ?thesis by blast
      next
        case nb: False
        let ?s' = "log_line (AttemptFailed (retry + 1) itemName (message e))
                     (called (CallPlaceBlock blk dir) (s\<lparr>world := w\<rparr>))"
        from "1.IH" [OF True pb [symmetric] Some nb] True pb Some nb
        obtain n where n: "n \<le> maxRetries - (retry + 1)"
          "calls (snd (place_attempts env itemName blk dir (retry + 1) ?s'))
             = calls ?s' @ replicate n (CallPlaceBlock blk dir)"
          "\<not> fst (place_attempts env itemName blk dir (retry + 1) ?s') \<longrightarrow> n = maxRetries - (retry + 1)"
          by blast
        have unf: "place_attempts env itemName blk dir retry s
                     = place_attempts env itemName blk dir (retry + 1) ?s'"
          using True pb Some nb
          by (simp add: place_attempts.simps [of env itemName blk dir retry s])
        have "calls (snd (place_attempts env itemName blk dir retry s))
                = calls s @ replicate (Suc n) (CallPlaceBlock blk dir)"
          using n(2) unf by simp
        moreover have "Suc n \<le> maxRetries - retry" using n(1) True by simp
        moreover have "\<not> fst (place_attempts env itemName blk dir retry s)
                         \<longrightarrow> Suc n = maxRetries - retry"
          using n(3) unf True by auto
        ultimately show ?thesis by blast
      qed
    qed
  qed
qed

lemma equipItem_fst:
  "fst (equipItem env s itemName hand) =
     (case bot_findInventoryItem env (world s) itemName of
        None \<Rightarrow> False
      | Some item \<Rightarrow> fst (bot_equip env (world s) item hand) = None)"
  by (simp add: equipItem_def split: option.splits prod.splits)

lemma placeOnBlock_reached:
  assumes "bot_blockAt env (world s)
             (Vec3 (vx (position (frame env s)) + x) (vy (position (frame env s)) + y)
                (vz (position (frame env s)) - z)) = Some blk"
    and "fst (equipItem env s itemName ''hand'')"
  shows "placeOnBlock env s itemName (x, y, z) dir fd =
           place_attempts env itemName blk dir 0
             (face env fd
                (snd (equipItem env
                        (called (CallBlockAt
                           (Vec3 (vx (position (frame env s)) + x) (vy (position (frame env s)) + y)
                              (vz (position (frame env s)) - z)))
                           (snd (ensureOrigin env origin_unset_msg_place s)))
                        itemName ''hand'')))"
proof -
  let ?s2 = "called (CallBlockAt
                (Vec3 (vx (position (frame env s)) + x) (vy (position (frame env s)) + y)
                   (vz (position (frame env s)) - z)))
                (snd (ensureOrigin env origin_unset_msg_place s))"
  have "fst (equipItem env ?s2 itemName ''hand'')"
    using assms(2) by (simp add: equipItem_fst split: option.splits)
  then show ?thesis
    using assms(1)
    by (simp add: placeOnBlock_def case_prod_unfold Let_def airCheck_def skipAirCheck_def)
qed

lemma placeOnBlock_place_calls:
  "\<exists>n. n \<le> maxRetries
       \<and> (\<forall>blk. bot_blockAt env (world s)
                    (Vec3 (vx (position (frame env s)) + x) (vy (position (frame env s)) + y)
                       (vz (position (frame env s)) - z)) = Some blk
              \<longrightarrow> place_calls (new_calls s (snd (placeOnBlock env s itemName (x, y, z) dir fd)))
                    = replicate n (blk, dir))
       \<and> (\<not> fst (placeOnBlock env s itemName (x, y, z) dir fd)
            \<and> fst (equipItem env s itemName ''hand'')
            \<and> bot_blockAt env (world s)
                 (Vec3 (vx (position (frame env s)) + x) (vy (position (frame env s)) + y)
                    (vz (position (frame env s)) - z)) \<noteq> None
            \<longrightarrow> n = maxRetries)"
proof -
  let ?abs = "Vec3 (vx (position (frame env s)) + x) (vy (position (frame env s)) + y)
                (vz (position (frame env s)) - z)"
  let ?s2 = "called (CallBlockAt ?abs) (snd (ensureOrigin env origin_unset_msg_place s))"
  show ?thesis
  proof (cases "bot_blockAt env (world s) ?abs")
    case None
    then show ?thesis by auto
  next
    case (Some blk)
    show ?thesis
    proof (cases "fst (equipItem env s itemName ''hand'')")
      case False
      then have "\<not> fst (equipItem env ?s2 itemName ''hand'')"
        by (simp add: equipItem_fst split: option.splits)
      with Some have
        "place_calls (new_calls s (snd (placeOnBlock env s itemName (x, y, z) dir fd)))
           = replicate 0 (blk, dir)"
        by (simp add: placeOnBlock_def case_prod_unfold Let_def new_calls_def equipItem_fields
            split: option.splits)
      with False Some show ?thesis by (metis le0 option.inject)
    next
      case True
      let ?t = "face env fd (snd (equipItem env ?s2 itemName ''hand''))"
      from placeOnBlock_reached [OF Some True]
      have run: "placeOnBlock env s itemName (x, y, z) dir fd
                   = place_attempts env itemName blk dir 0 ?t" .
      obtain n where n: "n \<le> maxRetries - 0"
        "calls (snd (place_attempts env itemName blk dir 0 ?t))
           = calls ?t @ replicate n (CallPlaceBlock blk dir)"
        "\<not> fst (place_attempts env itemName blk dir 0 ?t) \<longrightarrow> n = maxRetries - 0"
        using place_attempts_calls [of 0 env itemName blk dir ?t] by blast
      obtain cs where cs: "calls ?t = calls (snd (equipItem env ?s2 itemName ''hand'')) @ cs"
        "place_calls cs = []"
        using face_fields(3) by blast
      have "calls (snd (placeOnBlock env s itemName (x, y, z) dir fd))
              = calls s @ (CallBlockAt ?abs
                  # (case bot_findInventoryItem env (world s) itemName of
                       None \<Rightarrow> [] | Some item \<Rightarrow> [CallEquip item ''hand''])
                  @ cs @ replicate n (CallPlaceBlock blk dir))"
        using run n(2) cs(1) by (simp add: equipItem_fields)
      then have "place_calls (new_calls s (snd (placeOnBlock env s itemName (x, y, z) dir fd)))
                   = replicate n (blk, dir)"
        using cs(2) by (simp add: new_calls_def split: option.splits)
      with n(1,3) run Some show ?thesis by auto
    qed
  qed
qed




section \<open>Placement retries\<close>


lemma benign_values [simp]: "\<not> benign no_block_placed" "benign update_timeout"
  by (simp_all add: benign_def no_block_placed_def update_timeout_def)

lemma mock_stone_below:
  "bot_blockAt mock_env (m\<lparr>m_blocks := m_blocks flat_world\<rparr>) (Vec3 0 63 (-1)) = Some stone_below"
  by (simp add: mock_env_def mock_blockAt_def flat_world_def floored_def stone_below_def)


section \<open>Failing before the placement phase\<close>

text \<open>
  C5. When \<^verbatim>\<open>blockAt\<close> finds no block at the resolved coordinate, \<^verbatim>\<open>placeOnBlock\<close> returns
  false having made that one lookup and nothing else: no equip, no placement attempt, the
  collaborator untouched, and the diagnostic as its last log line. When the equip fails it
  returns false without any \<^verbatim>\<open>placeBlock\<close> or \<^verbatim>\<open>lookAt\<close> call, and (a block being there)
  logs that it cannot equip.
\<close>

theorem placeOnBlock_fails_early:
  "(bot_blockAt env (world s)
      (Vec3 (vx (position (frame env s)) + x) (vy (position (frame env s)) + y)
         (vz (position (frame env s)) - z)) = None \<longrightarrow>
      fst (placeOnBlock env s itemName (x, y, z) dir fd) = False
      \<and> new_calls s (snd (placeOnBlock env s itemName (x, y, z) dir fd))
          = [CallBlockAt (Vec3 (vx (position (frame env s)) + x) (vy (position (frame env s)) + y)
                            (vz (position (frame env s)) - z))]
      \<and> world (snd (placeOnBlock env s itemName (x, y, z) dir fd)) = world s
      \<and> last (output_log (snd (placeOnBlock env s itemName (x, y, z) dir fd)))
          = NoSupportingBlock (Vec3 (vx (position (frame env s)) + x)
              (vy (position (frame env s)) + y) (vz (position (frame env s)) - z)) itemName)
   \<and> (\<not> fst (equipItem env s itemName ''hand'') \<longrightarrow>
      fst (placeOnBlock env s itemName (x, y, z) dir fd) = False
      \<and> place_calls (new_calls s (snd (placeOnBlock env s itemName (x, y, z) dir fd))) = []
      \<and> lookAt_targets (new_calls s (snd (placeOnBlock env s itemName (x, y, z) dir fd))) = []
      \<and> (bot_blockAt env (world s)
            (Vec3 (vx (position (frame env s)) + x) (vy (position (frame env s)) + y)
               (vz (position (frame env s)) - z)) \<noteq> None \<longrightarrow>
          last (output_log (snd (placeOnBlock env s itemName (x, y, z) dir fd)))
            = CannotEquip itemName))"
proof -
  let ?abs = "Vec3 (vx (position (frame env s)) + x) (vy (position (frame env s)) + y)
                (vz (position (frame env s)) - z)"
  let ?s2 = "called (CallBlockAt ?abs) (snd (ensureOrigin env origin_unset_msg_place s))"
  have none: "bot_blockAt env (world s) ?abs = None \<Longrightarrow>
      placeOnBlock env s itemName (x, y, z) dir fd
        = (False, log_line (NoSupportingBlock ?abs itemName) ?s2)"
    by (simp add: placeOnBlock_def case_prod_unfold Let_def)
  have noequip: "\<not> fst (equipItem env s itemName ''hand'') \<Longrightarrow>
      bot_blockAt env (world s) ?abs = Some blk \<Longrightarrow>
      placeOnBlock env s itemName (x, y, z) dir fd
        = (False, log_line (CannotEquip itemName) (snd (equipItem env ?s2 itemName ''hand'')))"
    for blk
  proof -
    assume a: "\<not> fst (equipItem env s itemName ''hand'')"
      and b: "bot_blockAt env (world s) ?abs = Some blk"
    from a have "\<not> fst (equipItem env ?s2 itemName ''hand'')"
      by (simp add: equipItem_fst split: option.splits)
    with b show ?thesis
      by (simp add: placeOnBlock_def case_prod_unfold Let_def)
  qed
  show ?thesis
  proof (cases "bot_blockAt env (world s) ?abs")
    case None
    then show ?thesis
      by (simp add: none new_calls_def)
  next
    case (Some blk)
    then show ?thesis
      by (auto simp: noequip new_calls_def equipItem_fields split: option.splits)
  qed
qed

theorem placeOnBlock_fails_early_witness:
  "bot_blockAt mock_env (world (bot_in void_world))
     (Vec3 (vx (position (frame mock_env (bot_in void_world))) + 0)
        (vy (position (frame mock_env (bot_in void_world))) + (-1))
        (vz (position (frame mock_env (bot_in void_world))) - 1)) = None
   \<and> fst (placeOnBlock mock_env (bot_in void_world) ''lever'' (0, -1, 1)
            default_directionVec None) = False
   \<and> \<not> fst (equipItem mock_env (bot_in flat_world) ''lever'' ''hand'')
   \<and> bot_blockAt mock_env (world (bot_in flat_world))
     (Vec3 (vx (position (frame mock_env (bot_in flat_world))) + 0)
        (vy (position (frame mock_env (bot_in flat_world))) + (-1))
        (vz (position (frame mock_env (bot_in flat_world))) - 1)) \<noteq> None
   \<and> fst (placeOnBlock mock_env (bot_in flat_world) ''lever'' (0, -1, 1)
            default_directionVec None) = False
   \<and> place_calls (new_calls (bot_in flat_world)
        (snd (placeOnBlock mock_env (bot_in flat_world) ''lever'' (0, -1, 1)
                default_directionVec None))) = []
   \<and> last (output_log (snd (placeOnBlock mock_env (bot_in flat_world) ''lever'' (0, -1, 1)
                default_directionVec None))) = CannotEquip ''lever''"
  using placeOnBlock_fails_early [of mock_env "bot_in void_world" 0 "-1" 1 "''lever''"
      default_directionVec None]
    placeOnBlock_fails_early [of mock_env "bot_in flat_world" 0 "-1" 1 "''lever''"
      default_directionVec None]
  by (simp add: equipItem_fst mock_env_def mock_blockAt_def mock_find_def flat_world_def
      void_world_def bot_in_def frame_def originFrame_def clone_def floored_def)

section \<open>Toggling\<close>

lemma toggleBlock_run:
  "toggleBlock env s blockType x y z =
     (let pos = floored (Vec3 (vx (position (frame env s)) + x) (vy (position (frame env s)) + y)
                           (vz (position (frame env s)) - z));
          s2 = called (CallBlockAt pos)
                 (snd (ensureOrigin env origin_unset_msg (log_line (AttemptToggle blockType x y z) s)))
      in case bot_blockAt env (world s) pos of
           None \<Rightarrow> log_line (BlockNotFound blockType x y z pos ''nothing'') s2
         | Some blk \<Rightarrow>
             (if name blk = blockType then
                log_line (case fst (bot_activateBlock env (world s) blk) of
                            None \<Rightarrow> Activated blockType pos
                          | Some e \<Rightarrow> ActivateError pos (message e))
                  (called (CallActivateBlock blk)
                     (s2\<lparr>world := snd (bot_activateBlock env (world s) blk)\<rparr>))
              else log_line (BlockNotFound blockType x y z pos (name_or (Some blk) ''nothing'')) s2))"
  by (simp add: toggleBlock_def toggleBlock_abs_def case_prod_unfold Let_def name_or_def
      split: option.splits)

text \<open>
  C8. \<^verbatim>\<open>toggleBlock\<close> looks up the floored resolved coordinate and then calls
  \<^verbatim>\<open>activateBlock\<close> once if the block found there has exactly the expected name, and not at
  all otherwise. Without a match the collaborator is untouched and the last log line reports
  what was found. When the activation raises, the error is the last log line and the single
  activation call is not repeated.
\<close>

theorem toggleBlock_activates_iff_match:
  "new_calls s (toggleBlock env s blockType x y z)
     = CallBlockAt (floored (Vec3 (vx (position (frame env s)) + x)
                      (vy (position (frame env s)) + y) (vz (position (frame env s)) - z)))
       # (case bot_blockAt env (world s)
                 (floored (Vec3 (vx (position (frame env s)) + x)
                    (vy (position (frame env s)) + y) (vz (position (frame env s)) - z))) of
            None \<Rightarrow> []
          | Some blk \<Rightarrow> (if name blk = blockType then [CallActivateBlock blk] else []))
   \<and> ((activate_calls (new_calls s (toggleBlock env s blockType x y z)) \<noteq> [])
        = (\<exists>blk. bot_blockAt env (world s)
                   (floored (Vec3 (vx (position (frame env s)) + x)
                      (vy (position (frame env s)) + y) (vz (position (frame env s)) - z)))
                   = Some blk \<and> name blk = blockType))
   \<and> ((\<forall>blk. bot_blockAt env (world s)
                (floored (Vec3 (vx (position (frame env s)) + x)
                   (vy (position (frame env s)) + y) (vz (position (frame env s)) - z)))
                = Some blk \<longrightarrow> name blk \<noteq> blockType) \<longrightarrow>
        world (toggleBlock env s blockType x y z) = world s
        \<and> last (output_log (toggleBlock env s blockType x y z))
            = BlockNotFound blockType x y z
                (floored (Vec3 (vx (position (frame env s)) + x)
                   (vy (position (frame env s)) + y) (vz (position (frame env s)) - z)))
                (name_or (bot_blockAt env (world s)
                   (floored (Vec3 (vx (position (frame env s)) + x)
                      (vy (position (frame env s)) + y) (vz (position (frame env s)) - z))))
                   ''nothing''))
   \<and> (bot_blockAt env (world s)
         (floored (Vec3 (vx (position (frame env s)) + x)
            (vy (position (frame env s)) + y) (vz (position (frame env s)) - z))) = Some b
       \<and> name b = blockType \<and> bot_activateBlock env (world s) b = (Some e, w) \<longrightarrow>
        activate_calls (new_calls s (toggleBlock env s blockType x y z)) = [b]
        \<and> world (toggleBlock env s blockType x y z) = w
        \<and> last (output_log (toggleBlock env s blockType x y z))
            = ActivateError
                (floored (Vec3 (vx (position (frame env s)) + x)
                   (vy (position (frame env s)) + y) (vz (position (frame env s)) - z)))
                (message e))"
  by (auto simp: toggleBlock_run Let_def new_calls_def name_or_def split: option.splits)

theorem toggleBlock_activates_iff_match_witness:
  "bot_blockAt mock_env (world (bot_in flat_world))
      (floored (Vec3 (vx (position (frame mock_env (bot_in flat_world))) + 1)
         (vy (position (frame mock_env (bot_in flat_world))) + 0)
         (vz (position (frame mock_env (bot_in flat_world))) - 2)))
     = Some \<lparr>name = ''air'', block_position = Vec3 1 64 (-2), metadata = 0\<rparr>
   \<and> world (toggleBlock mock_env (bot_in flat_world) ''lever'' 1 0 2) = flat_world
   \<and> activate_calls (new_calls (bot_in flat_world)
        (toggleBlock mock_env (bot_in flat_world) ''lever'' 1 0 2)) = []
   \<and> activate_calls (new_calls (bot_in (lever_at_cell\<lparr>m_faults := [Some no_block_placed]\<rparr>))
        (toggleBlock mock_env (bot_in (lever_at_cell\<lparr>m_faults := [Some no_block_placed]\<rparr>))
           ''lever'' 1 0 2))
       = [\<lparr>name = ''lever'', block_position = Vec3 1 64 (-2), metadata = 0\<rparr>]
   \<and> last (output_log
        (toggleBlock mock_env (bot_in (lever_at_cell\<lparr>m_faults := [Some no_block_placed]\<rparr>))
           ''lever'' 1 0 2))
       = ActivateError (Vec3 1 64 (-2)) (Some ''No block has been placed'')"
  using toggleBlock_activates_iff_match [of "bot_in flat_world" mock_env "''lever''" 1 0 2]
    toggleBlock_activates_iff_match [of
      "bot_in (lever_at_cell\<lparr>m_faults := [Some no_block_placed]\<rparr>)" mock_env "''lever''" 1 0 2
      "\<lparr>name = ''lever'', block_position = Vec3 1 64 (-2), metadata = 0\<rparr>"
      no_block_placed "lever_at_cell\<lparr>m_faults := []\<rparr>"]
  by (simp add: mock_env_def mock_blockAt_def mock_activateBlock_def next_fault_def
      flat_world_def lever_at_cell_def bot_in_def frame_def originFrame_def clone_def
      floored_def no_block_placed_def)

section \<open>Digging a list of offsets\<close>

lemma dig_offset_run:
  "dig_offset env p t (rx, ry, rz) =
     (let pos = dig_pos p (rx, ry, rz);
          t1 = called (CallBlockAt pos) t
      in case bot_blockAt env (world t) pos of
           None \<Rightarrow> log_line (CannotDig pos ''out of sight'') t1
         | Some blk \<Rightarrow>
             (if bot_canDigBlock env (world t) blk \<and> name blk \<noteq> ''air'' then
                (case fst (bot_dig env (world t) blk) of
                   None \<Rightarrow> called (CallDig blk)
                             (log_line (DiggingAt rx ry rz pos) t1
                                \<lparr>world := snd (bot_dig env (world t) blk)\<rparr>)
                 | Some e \<Rightarrow> log_line (CouldNotDig pos (message e))
                               (called (CallDig blk)
                                  (log_line (DiggingAt rx ry rz pos) t1
                                     \<lparr>world := snd (bot_dig env (world t) blk)\<rparr>)))
              else log_line (CannotDig pos (name_or (Some blk) ''out of sight'')) t1))"
  by (simp add: dig_offset_def Let_def name_or_def split: option.splits prod.splits)

lemma dig_offset_calls:
  "calls (dig_offset env p t off) =
     calls t @ CallBlockAt (dig_pos p off)
       # (case bot_blockAt env (world t) (dig_pos p off) of
            None \<Rightarrow> []
          | Some blk \<Rightarrow>
              (if bot_canDigBlock env (world t) blk \<and> name blk \<noteq> ''air''
               then [CallDig blk] else []))"
  by (cases off) (simp add: dig_offset_run Let_def split: option.splits)


lemma dig_loop_calls:
  "\<exists>cs. calls (dig_loop env p s offs) = calls s @ cs
        \<and> blockAt_queries cs = map (dig_pos p) offs
        \<and> list_all (\<lambda>blk. name blk \<noteq> ''air'') (dig_calls cs)"
proof (induction offs arbitrary: s)
  case Nil
  show ?case by simp
next
  case (Cons off rest)
  let ?s' = "dig_offset env p s off"
  obtain c0 where c0: "calls ?s' = calls s @ c0" "blockAt_queries c0 = [dig_pos p off]"
    "list_all (\<lambda>blk. name blk \<noteq> ''air'') (dig_calls c0)"
    by (simp add: dig_offset_calls split: option.splits)
  from Cons.IH [of ?s'] obtain cs where cs: "calls (dig_loop env p ?s' rest) = calls ?s' @ cs"
    "blockAt_queries cs = map (dig_pos p) rest"
    "list_all (\<lambda>blk. name blk \<noteq> ''air'') (dig_calls cs)"
    by blast
  have "calls (dig_loop env p s (off # rest)) = calls s @ (c0 @ cs)"
    using c0(1) cs(1) by simp
  moreover have "blockAt_queries (c0 @ cs) = map (dig_pos p) (off # rest)"
    using c0(2) cs(2) by simp
  moreover have "list_all (\<lambda>blk. name blk \<noteq> ''air'') (dig_calls (c0 @ cs))"
    using c0(3) cs(3) by simp
  ultimately show ?case by blast
qed

lemma dig_run:
  "dig env s offs =
     dig_loop env (position (frame env s))
       (snd (ensureOrigin env origin_unset_msg
               (log_line (Text ''Digging based on coordinate list...'') s))) offs"
  by (simp add: dig_def case_prod_unfold)



section \<open>Provisioning\<close>

lemma acquireItems_entry_run:
  "acquireItems_entry env s (itemName, requiredAmount) =
     (if current_count env (world s) itemName < requiredAmount then
        wait_step env 200
          (chat_step env (Give itemName (requiredAmount - current_count env (world s) itemName))
             (log_line (Giving (current_count env (world s) itemName) itemName requiredAmount
                          (requiredAmount - current_count env (world s) itemName)) s))
      else log_line (AlreadyEnough itemName) s)"
  by (simp add: acquireItems_entry_def current_count_def Let_def)

lemma acquireItems_entry_calls:
  "calls (acquireItems_entry env s (itemName, requiredAmount)) =
     calls s @ (if current_count env (world s) itemName < requiredAmount
                then [CallChat (Give itemName (requiredAmount - current_count env (world s) itemName)),
                      CallWait 200]
                else [])"
  by (simp add: acquireItems_entry_run)

lemma acquireItems_entry_world:
  "world s = world s' \<Longrightarrow>
     world (acquireItems_entry env s entry) = world (acquireItems_entry env s' entry)"
  by (cases entry) (simp add: acquireItems_entry_run)

lemma acquireItems_loop_world:
  "world s = world s' \<Longrightarrow>
     world (acquireItems_loop env s items) = world (acquireItems_loop env s' items)"
proof (induction items arbitrary: s s')
  case Nil
  then show ?case by simp
next
  case (Cons entry rest)
  from Cons.prems have "world (acquireItems_entry env s entry)
                          = world (acquireItems_entry env s' entry)"
    by (rule acquireItems_entry_world)
  then have "world (acquireItems_loop env (acquireItems_entry env s entry) rest)
               = world (acquireItems_loop env (acquireItems_entry env s' entry) rest)"
    by (rule Cons.IH)
  then show ?case by simp
qed

lemma acquireItems_loop_append:
  "acquireItems_loop env s (xs @ ys) = acquireItems_loop env (acquireItems_loop env s xs) ys"
  by (induction xs arbitrary: s) simp_all

lemma acquireItems_loop_calls:
  "\<exists>cs. calls (acquireItems_loop env s items) = calls s @ cs
        \<and> list_all (provisioning_call (fst ` set items)) cs
        \<and> (itemName \<notin> fst ` set items \<longrightarrow> give_requests itemName cs = [])"
proof (induction items arbitrary: s)
  case Nil
  show ?case by simp
next
  case (Cons entry rest)
  obtain n r where entry: "entry = (n, r)" by (cases entry)
  let ?s' = "acquireItems_entry env s entry"
  let ?names = "fst ` set (entry # rest)"
  obtain c0 where c0: "calls ?s' = calls s @ c0" "list_all (provisioning_call ?names) c0"
    "itemName \<noteq> n \<longrightarrow> give_requests itemName c0 = []"
    by (simp add: entry acquireItems_entry_calls provisioning_call_def)
  from Cons.IH [of ?s'] obtain cs where cs: "calls (acquireItems_loop env ?s' rest) = calls ?s' @ cs"
    "list_all (provisioning_call (fst ` set rest)) cs"
    "itemName \<notin> fst ` set rest \<longrightarrow> give_requests itemName cs = []"
    by blast
  have mono: "list_all (provisioning_call ?names) cs"
    using cs(2) by (auto simp: list_all_iff provisioning_call_def split: call.splits chat_message.splits)
  have "calls (acquireItems_loop env s (entry # rest)) = calls s @ (c0 @ cs)"
    using c0(1) cs(1) by simp
  moreover have "list_all (provisioning_call ?names) (c0 @ cs)"
    using c0(2) mono by simp
  moreover have "itemName \<notin> ?names \<longrightarrow> give_requests itemName (c0 @ cs) = []"
    using c0(3) cs(3) by (simp add: entry)
  ultimately show ?case by blast
qed

text \<open>
  C7. Let the required-item mapping have distinct keys (it is an object literal) and let
  \<open>(itemName, requiredAmount)\<close> be any of its entries, after the entries \<open>pre\<close> and before
  \<open>post\<close>. The current count is the live one, read when the loop reaches the entry. Over the
  whole run the requests for \<open>itemName\<close> are: one request for exactly the shortfall when the
  count is below the requirement, none otherwise. Every call of the run is a give command
  with a positive quantity for an item of the mapping, or the wait that follows it, so
  nothing is ever taken away.
\<close>

theorem acquireItems_requests_exact_shortfall:
  assumes "distinct (map fst (pre @ (itemName, requiredAmount) # post))"
  shows "give_requests itemName
           (new_calls s (snd (acquireItems_with env s (pre @ (itemName, requiredAmount) # post))))
         = (if current_count env (world (acquireItems_loop env s pre)) itemName < requiredAmount
            then [requiredAmount - current_count env (world (acquireItems_loop env s pre)) itemName]
            else [])
       \<and> list_all (provisioning_call (fst ` set (pre @ (itemName, requiredAmount) # post)))
           (new_calls s (snd (acquireItems_with env s (pre @ (itemName, requiredAmount) # post))))
       \<and> fst (acquireItems_with env s (pre @ (itemName, requiredAmount) # post)) = True"
proof -
  let ?s0 = "log_line (Text ''Checking and acquiring necessary items...'') s"
  let ?s1 = "acquireItems_loop env ?s0 pre"
  let ?s2 = "acquireItems_entry env ?s1 (itemName, requiredAmount)"
  let ?s3 = "acquireItems_loop env ?s2 post"
  let ?items = "pre @ (itemName, requiredAmount) # post"
  from assms have notin: "itemName \<notin> fst ` set pre" "itemName \<notin> fst ` set post"
    by auto
  have w: "world ?s1 = world (acquireItems_loop env s pre)"
    by (rule acquireItems_loop_world) simp
  obtain c1 where c1: "calls ?s1 = calls ?s0 @ c1" "give_requests itemName c1 = []"
    using acquireItems_loop_calls [of env ?s0 pre itemName] notin(1) by blast
  obtain c3 where c3: "calls ?s3 = calls ?s2 @ c3" "give_requests itemName c3 = []"
    using acquireItems_loop_calls [of env ?s2 post itemName] notin(2) by blast
  have split: "acquireItems_loop env ?s0 ?items = ?s3"
    by (simp add: acquireItems_loop_append)
  have "calls (snd (acquireItems_with env s ?items))
          = calls s @ c1
            @ (if current_count env (world ?s1) itemName < requiredAmount
               then [CallChat (Give itemName (requiredAmount - current_count env (world ?s1) itemName)),
                     CallWait 200]
               else [])
            @ c3"
    using c1(1) c3(1) by (simp add: acquireItems_with_def split acquireItems_entry_calls)
  then have a: "give_requests itemName (new_calls s (snd (acquireItems_with env s ?items)))
         = (if current_count env (world (acquireItems_loop env s pre)) itemName < requiredAmount
            then [requiredAmount - current_count env (world (acquireItems_loop env s pre)) itemName]
            else [])"
    using c1(2) c3(2) by (simp add: new_calls_def w)
  obtain cs where cs: "calls (acquireItems_loop env ?s0 ?items) = calls ?s0 @ cs"
    "list_all (provisioning_call (fst ` set ?items)) cs"
    using acquireItems_loop_calls [of env ?s0 ?items itemName] by blast
  have b: "list_all (provisioning_call (fst ` set ?items))
             (new_calls s (snd (acquireItems_with env s ?items)))"
    using cs by (simp add: acquireItems_with_def new_calls_def)
  have c: "fst (acquireItems_with env s ?items) = True"
    by (simp add: acquireItems_with_def)
  from a b c show ?thesis by blast
qed

text \<open>
  The specification's example: with two torches required, a bot holding none sends one
  request for two, and a bot holding five sends none.
\<close>

theorem acquireItems_requests_exact_shortfall_witness:
  "distinct (map fst ([] @ (''torch'', 2 :: int) # []))
   \<and> give_requests ''torch''
        (new_calls (bot_in (torch_world 0))
           (snd (acquireItems_with mock_env (bot_in (torch_world 0)) [(''torch'', 2)]))) = [2]
   \<and> give_requests ''torch''
        (new_calls (bot_in (torch_world 5))
           (snd (acquireItems_with mock_env (bot_in (torch_world 5)) [(''torch'', 2)]))) = []"
proof -
  have d: "distinct (map fst ([] @ (''torch'', 2 :: int) # []))"
    by simp
  have c0: "current_count mock_env
              (world (acquireItems_loop mock_env (bot_in (torch_world 0)) [])) ''torch'' = 0"
    by (simp add: current_count_def mock_env_def mock_counts_def torch_world_def bot_in_def)
  have c5: "current_count mock_env
              (world (acquireItems_loop mock_env (bot_in (torch_world 5)) [])) ''torch'' = 5"
    by (simp add: current_count_def mock_env_def mock_counts_def torch_world_def bot_in_def)
  have r0: "give_requests ''torch''
        (new_calls (bot_in (torch_world 0))
           (snd (acquireItems_with mock_env (bot_in (torch_world 0)) [(''torch'', 2)]))) = [2]"
    using acquireItems_requests_exact_shortfall [OF d, of "bot_in (torch_world 0)" mock_env]
    by (simp only: c0 append_Nil) simp
  have r5: "give_requests ''torch''
        (new_calls (bot_in (torch_world 5))
           (snd (acquireItems_with mock_env (bot_in (torch_world 5)) [(''torch'', 2)]))) = []"
    using acquireItems_requests_exact_shortfall [OF d, of "bot_in (torch_world 5)" mock_env]
    by (simp only: c5 append_Nil) simp
  from d r0 r5 show ?thesis by blast
qed

lemma requiredItems_distinct:
  "distinct (map fst requiredItems_rail)" "distinct (map fst requiredItems_cane)"
  by (simp_all add: requiredItems_rail_def requiredItems_cane_def)

section \<open>Resolving offsets\<close>

lemma placeOnBlock_cane_eq:
  "placeOnBlock_cane env s itemName coords dir = placeOnBlock env s itemName coords dir None"
  by (simp add: placeOnBlock_cane_def placeOnBlock_def face_def Let_def
      split: prod.splits option.splits bool.splits)

lemma blockAt_queries_replicate_place [simp]:
  "blockAt_queries (replicate n (CallPlaceBlock b d)) = []"
  by (induction n) simp_all

lemma face_blockAt_queries:
  "\<exists>cs. calls (face env fd s) = calls s @ cs \<and> blockAt_queries cs = []"
  by (simp add: face_def Let_def split: option.splits)

lemma placeOnBlock_blockAt_queries:
  "blockAt_queries (new_calls s (snd (placeOnBlock env s itemName (x, y, z) dir fd)))
     = [Vec3 (vx (position (frame env s)) + x) (vy (position (frame env s)) + y)
          (vz (position (frame env s)) - z)]"
proof -
  let ?abs = "Vec3 (vx (position (frame env s)) + x) (vy (position (frame env s)) + y)
                (vz (position (frame env s)) - z)"
  let ?s2 = "called (CallBlockAt ?abs) (snd (ensureOrigin env origin_unset_msg_place s))"
  show ?thesis
  proof (cases "bot_blockAt env (world s) ?abs")
    case None
    then show ?thesis
      by (simp add: placeOnBlock_def case_prod_unfold Let_def new_calls_def)
  next
    case (Some blk)
    show ?thesis
    proof (cases "fst (equipItem env s itemName ''hand'')")
      case False
      then have "\<not> fst (equipItem env ?s2 itemName ''hand'')"
        by (simp add: equipItem_fst split: option.splits)
      with Some show ?thesis
        by (simp add: placeOnBlock_def case_prod_unfold Let_def new_calls_def equipItem_fields
            split: option.splits)
    next
      case True
      let ?t = "face env fd (snd (equipItem env ?s2 itemName ''hand''))"
      from placeOnBlock_reached [OF Some True]
      have run: "placeOnBlock env s itemName (x, y, z) dir fd
                   = place_attempts env itemName blk dir 0 ?t" .
      obtain n where n:
        "calls (snd (place_attempts env itemName blk dir 0 ?t))
           = calls ?t @ replicate n (CallPlaceBlock blk dir)"
        using place_attempts_calls [of 0 env itemName blk dir ?t] by blast
      obtain cs where cs: "calls ?t = calls (snd (equipItem env ?s2 itemName ''hand'')) @ cs"
        "blockAt_queries cs = []"
        using face_blockAt_queries by blast
      have "calls (snd (placeOnBlock env s itemName (x, y, z) dir fd))
              = calls s @ (CallBlockAt ?abs
                  # (case bot_findInventoryItem env (world s) itemName of
                       None \<Rightarrow> [] | Some item \<Rightarrow> [CallEquip item ''hand''])
                  @ cs @ replicate n (CallPlaceBlock blk dir))"
        using run n cs(1) by (simp add: equipItem_fields)
      then show ?thesis
        using cs(2) by (simp add: new_calls_def split: option.splits)
    qed
  qed
qed

lemma pour_lookAtPoint_eq:
  "pour_lookAtPoint org dx dy dz =
     Vec3 (vx (position org) + dx) (vy (position org) + dy) (vz (position org) - dz)"
  by (simp add: pour_lookAtPoint_def Let_def v_add_def scaled_def clone_def)

lemma pourWaterInHole_lookAt_targets:
  "lookAt_targets (new_calls s (snd (pourWaterInHole env s dx dy dz)))
     = (if fst (equipItem env s ''water_bucket'' ''hand'')
        then [pour_lookAtPoint (frame env s) dx dy dz] else [])"
proof -
  let ?s1 = "snd (ensureOrigin env origin_unset_msg (log_line (Pouring dx dy dz) s))"
  have e: "fst (equipItem env ?s1 ''water_bucket'' ''hand'')
             = fst (equipItem env s ''water_bucket'' ''hand'')"
    by (simp add: equipItem_fst split: option.splits)
  show ?thesis
  proof (cases "fst (equipItem env s ''water_bucket'' ''hand'')")
    case True
    with e have "fst (equipItem env ?s1 ''water_bucket'' ''hand'')" by simp
    with True show ?thesis
      by (simp add: pourWaterInHole_def case_prod_unfold Let_def new_calls_def equipItem_fields
          split: option.splits)
  next
    case False
    with e have "\<not> fst (equipItem env ?s1 ''water_bucket'' ''hand'')" by simp
    with False show ?thesis
      by (simp add: pourWaterInHole_def case_prod_unfold Let_def new_calls_def equipItem_fields
          split: option.splits)
  qed
qed

lemma walkTo_calls:
  "new_calls s (snd (walkTo env s dx dy dz))
     = [CallGoToPosition (vx (position (frame env s)) + dx) (vy (position (frame env s)) + dy)
          (vz (position (frame env s)) - dz)]"
  by (simp add: walkTo_def walkTo_targetPos_def case_prod_unfold Let_def new_calls_def)

lemma toggleBlock_blockAt_queries:
  "blockAt_queries (new_calls s (toggleBlock env s blockType x y z))
     = [floored (Vec3 (vx (position (frame env s)) + x) (vy (position (frame env s)) + y)
                   (vz (position (frame env s)) - z))]"
  by (simp add: toggleBlock_run Let_def new_calls_def split: option.splits)

lemma dig_blockAt_queries:
  "blockAt_queries (new_calls s (dig env s offs)) = map (dig_pos (position (frame env s))) offs"
proof -
  obtain cs where cs: "calls (dig env s offs) = calls s @ cs"
    "blockAt_queries cs = map (dig_pos (position (frame env s))) offs"
    using dig_loop_calls [of env "position (frame env s)"
        "snd (ensureOrigin env origin_unset_msg
                (log_line (Text ''Digging based on coordinate list...'') s))" offs]
    by (auto simp: dig_run)
  then show ?thesis by (simp add: new_calls_def)
qed

text \<open>
  C1. Let the origin frame of the bot have position \<open>(ox, oy, oz)\<close> (any yaw), and take an
  offset \<open>(r, u, f)\<close>. Then the coordinate every primitive resolves is
  \<open>(ox + r, oy + u, oz - f)\<close>: it is the one block lookup of \<^verbatim>\<open>placeOnBlock\<close> (in both
  files), the target handed to \<^verbatim>\<open>goToPosition\<close> by \<^verbatim>\<open>walkTo\<close>, the point
  \<^verbatim>\<open>pourWaterInHole\<close> looks at when it has equipped the bucket, and, floored to its cell,
  the block lookup of \<^verbatim>\<open>toggleBlock\<close> and of every offset of \<^verbatim>\<open>dig\<close>.
\<close>

theorem resolve_offset_exact:
  assumes "position (frame env s) = Vec3 ox oy oz"
  shows "blockAt_queries (new_calls s (snd (placeOnBlock env s itemName (r, u, f) dir fd)))
           = [Vec3 (ox + r) (oy + u) (oz - f)]
       \<and> blockAt_queries (new_calls s (snd (placeOnBlock_cane env s itemName (r, u, f) dir)))
           = [Vec3 (ox + r) (oy + u) (oz - f)]
       \<and> new_calls s (snd (walkTo env s r u f))
           = [CallGoToPosition (ox + r) (oy + u) (oz - f)]
       \<and> pour_lookAtPoint (frame env s) r u f = Vec3 (ox + r) (oy + u) (oz - f)
       \<and> lookAt_targets (new_calls s (snd (pourWaterInHole env s r u f)))
           = (if fst (equipItem env s ''water_bucket'' ''hand'')
              then [Vec3 (ox + r) (oy + u) (oz - f)] else [])
       \<and> toggleBlock_abs (frame env s) r u f = Vec3 (ox + r) (oy + u) (oz - f)
       \<and> blockAt_queries (new_calls s (toggleBlock env s blockType r u f))
           = [floored (Vec3 (ox + r) (oy + u) (oz - f))]
       \<and> dig_pos (position (frame env s)) (r, u, f) = floored (Vec3 (ox + r) (oy + u) (oz - f))
       \<and> blockAt_queries (new_calls s (dig env s offs))
           = map (\<lambda>(r, u, f). floored (Vec3 (ox + r) (oy + u) (oz - f))) offs"
proof -
  have digpos: "dig_pos (Vec3 ox oy oz) = (\<lambda>(r, u, f). floored (Vec3 (ox + r) (oy + u) (oz - f)))"
    by (rule ext) (simp add: dig_pos_def split: prod.splits)
  show ?thesis
    using assms
    by (simp add: placeOnBlock_blockAt_queries placeOnBlock_cane_eq walkTo_calls
        pour_lookAtPoint_eq pourWaterInHole_lookAt_targets toggleBlock_abs_def Let_def
        toggleBlock_blockAt_queries dig_blockAt_queries digpos)
qed

theorem resolve_offset_exact_witness:
  "position (frame mock_env ((bot_in flat_world)\<lparr>origin := Some \<lparr>position = Vec3 (1/2) 64 (-7/2), yaw = 3\<rparr>\<rparr>))
     = Vec3 (1/2) 64 (-7/2)
   \<and> new_calls ((bot_in flat_world)\<lparr>origin := Some \<lparr>position = Vec3 (1/2) 64 (-7/2), yaw = 3\<rparr>\<rparr>)
        (snd (walkTo mock_env
                ((bot_in flat_world)\<lparr>origin := Some \<lparr>position = Vec3 (1/2) 64 (-7/2), yaw = 3\<rparr>\<rparr>)
                (-2) 0 3))
       = [CallGoToPosition (-3/2) 64 (-13/2)]
   \<and> blockAt_queries
        (new_calls ((bot_in flat_world)\<lparr>origin := Some \<lparr>position = Vec3 (1/2) 64 (-7/2), yaw = 3\<rparr>\<rparr>)
           (toggleBlock mock_env
              ((bot_in flat_world)\<lparr>origin := Some \<lparr>position = Vec3 (1/2) 64 (-7/2), yaw = 3\<rparr>\<rparr>)
              ''lever'' (-2) 0 3))
       = [Vec3 (-2) 64 (-7)]"
  using resolve_offset_exact [of mock_env
      "(bot_in flat_world)\<lparr>origin := Some \<lparr>position = Vec3 (1/2) 64 (-7/2), yaw = 3\<rparr>\<rparr>"
      "1/2" 64 "-7/2" _ "-2" 0 3 _ _ "''lever''"]
  by (simp add: frame_def bot_in_def floored_def)

section \<open>The stored yaw is never used\<close>

lemma observable_steps [simp]:
  "observable (log_line m s) = (world s, output_log s @ [m], calls s)"
  "observable (called c s) = (world s, output_log s, calls s @ [c])"
  "observable (lookAt_step env p s) = (bot_lookAt env (world s) p, output_log s, calls s @ [CallLookAt p])"
  "observable (wait_step env ms s) = (wait env (world s) ms, output_log s, calls s @ [CallWait ms])"
  by (simp_all add: observable_def)

lemma observable_eqD:
  "observable s1 = observable s2 \<Longrightarrow>
     world s1 = world s2 \<and> output_log s1 = output_log s2 \<and> calls s1 = calls s2"
  by (simp add: observable_def)

lemma equipItem_obs:
  assumes "observable s1 = observable s2"
  shows "fst (equipItem env s1 n h) = fst (equipItem env s2 n h)"
    and "observable (snd (equipItem env s1 n h)) = observable (snd (equipItem env s2 n h))"
  using observable_eqD [OF assms]
  by (auto simp: equipItem_def observable_def split: option.splits prod.splits)

lemma face_obs:
  assumes "observable s1 = observable s2"
  shows "observable (face env fd s1) = observable (face env fd s2)"
  using observable_eqD [OF assms]
  by (auto simp: face_def Let_def observable_def split: option.splits)

lemma place_attempts_obs:
  "observable s1 = observable s2 \<Longrightarrow>
     fst (place_attempts env itemName blk dir retry s1)
       = fst (place_attempts env itemName blk dir retry s2)
     \<and> observable (snd (place_attempts env itemName blk dir retry s1))
         = observable (snd (place_attempts env itemName blk dir retry s2))"
proof (induction env itemName blk dir retry s1 arbitrary: s2 rule: place_attempts.induct)
  case (1 env itemName blk dir retry s1)
  note eqs = observable_eqD [OF "1.prems"]
  show ?case
  proof (cases "retry < maxRetries")
    case False
    then show ?thesis
      using "1.prems"
      by (simp add: place_attempts.simps [of env itemName blk dir retry s1]
          place_attempts.simps [of env itemName blk dir retry s2])
  next
    case True
    obtain r w where pb: "bot_placeBlock env (world s1) blk dir = (r, w)"
      by (cases "bot_placeBlock env (world s1) blk dir")
    then have pb2: "bot_placeBlock env (world s2) blk dir = (r, w)"
      using eqs by simp
    show ?thesis
    proof (cases r)
      case None
      with True pb pb2 eqs show ?thesis
        by (simp add: place_attempts.simps [of env itemName blk dir retry s1]
            place_attempts.simps [of env itemName blk dir retry s2] observable_def)
    next
      case (Some e)
      show ?thesis
      proof (cases "benign e")
        case b: True
        with True pb pb2 Some eqs show ?thesis
          by (simp add: place_attempts.simps [of env itemName blk dir retry s1]
              place_attempts.simps [of env itemName blk dir retry s2] observable_def)
      next
        case nb: False
        let ?t1 = "log_line (AttemptFailed (retry + 1) itemName (message e))
                     (called (CallPlaceBlock blk dir) (s1\<lparr>world := w\<rparr>))"
        let ?t2 = "log_line (AttemptFailed (retry + 1) itemName (message e))
                     (called (CallPlaceBlock blk dir) (s2\<lparr>world := w\<rparr>))"
        have rel: "observable ?t1 = observable ?t2"
          using eqs by (simp add: observable_def)
        have u1: "place_attempts env itemName blk dir retry s1
                    = place_attempts env itemName blk dir (retry + 1) ?t1"
          using True pb Some nb
          by (simp add: place_attempts.simps [of env itemName blk dir retry s1])
        have u2: "place_attempts env itemName blk dir retry s2
                    = place_attempts env itemName blk dir (retry + 1) ?t2"
          using True pb2 Some nb
          by (simp add: place_attempts.simps [of env itemName blk dir retry s2])
        from "1.IH" [OF True pb [symmetric] Some nb rel] show ?thesis
          by (simp only: u1 u2)
      qed
    qed
  qed
qed

lemma dig_offset_obs:
  assumes "observable s1 = observable s2"
  shows "observable (dig_offset env p s1 off) = observable (dig_offset env p s2 off)"
  using observable_eqD [OF assms]
  by (cases off) (auto simp: dig_offset_run Let_def observable_def split: option.splits)

lemma dig_loop_obs:
  "observable s1 = observable s2 \<Longrightarrow>
     observable (dig_loop env p s1 offs) = observable (dig_loop env p s2 offs)"
proof (induction offs arbitrary: s1 s2)
  case Nil
  then show ?case by simp
next
  case (Cons off rest)
  from Cons.prems have "observable (dig_offset env p s1 off) = observable (dig_offset env p s2 off)"
    by (rule dig_offset_obs)
  then have "observable (dig_loop env p (dig_offset env p s1 off) rest)
               = observable (dig_loop env p (dig_offset env p s2 off) rest)"
    by (rule Cons.IH)
  then show ?case by simp
qed

lemma ensureOrigin_set: "origin s = Some org \<Longrightarrow> ensureOrigin env msg s = (org, s)"
  by (simp add: ensureOrigin_def)

lemma placeOnBlock_obs:
  assumes obs: "observable s1 = observable s2"
    and o1: "origin s1 = Some o1" and o2: "origin s2 = Some o2"
    and pos: "position o1 = position o2"
  shows "fst (placeOnBlock env s1 itemName (x, y, z) dir fd)
           = fst (placeOnBlock env s2 itemName (x, y, z) dir fd)
       \<and> observable (snd (placeOnBlock env s1 itemName (x, y, z) dir fd))
           = observable (snd (placeOnBlock env s2 itemName (x, y, z) dir fd))"
proof -
  let ?abs = "Vec3 (vx (position o2) + x) (vy (position o2) + y) (vz (position o2) - z)"
  let ?a1 = "called (CallBlockAt ?abs) s1" and ?a2 = "called (CallBlockAt ?abs) s2"
  note eqs = observable_eqD [OF obs]
  have rel_a: "observable ?a1 = observable ?a2"
    using eqs by simp
  show ?thesis
  proof (cases "bot_blockAt env (world s2) ?abs")
    case None
    then show ?thesis
      using eqs o1 o2 pos
      by (simp add: placeOnBlock_def ensureOrigin_set Let_def)
  next
    case (Some blk)
    let ?e1 = "equipItem env ?a1 itemName ''hand''" and ?e2 = "equipItem env ?a2 itemName ''hand''"
    have fe: "fst ?e1 = fst ?e2" and oe: "observable (snd ?e1) = observable (snd ?e2)"
      using equipItem_obs [OF rel_a] by auto
    show ?thesis
    proof (cases "fst ?e2")
      case False
      with fe have "\<not> fst ?e1" by simp
      with False Some oe eqs o1 o2 pos show ?thesis
        by (simp add: placeOnBlock_def ensureOrigin_set Let_def case_prod_unfold
            observable_eqD [OF oe])
    next
      case True
      with fe have t1: "fst ?e1" by simp
      let ?f1 = "face env fd (snd ?e1)" and ?f2 = "face env fd (snd ?e2)"
      have rel_f: "observable ?f1 = observable ?f2"
        using oe by (rule face_obs)
      have r1: "placeOnBlock env s1 itemName (x, y, z) dir fd
                  = place_attempts env itemName blk dir 0 ?f1"
        using t1 Some eqs o1 pos
        by (simp add: placeOnBlock_def ensureOrigin_set Let_def case_prod_unfold airCheck_def
            skipAirCheck_def)
      have r2: "placeOnBlock env s2 itemName (x, y, z) dir fd
                  = place_attempts env itemName blk dir 0 ?f2"
        using True Some o2
        by (simp add: placeOnBlock_def ensureOrigin_set Let_def case_prod_unfold airCheck_def
            skipAirCheck_def)
      from place_attempts_obs [OF rel_f] show ?thesis
        by (simp only: r1 r2)
    qed
  qed
qed

lemma walkTo_obs:
  assumes obs: "observable s1 = observable s2"
    and o1: "origin s1 = Some o1" and o2: "origin s2 = Some o2"
    and pos: "position o1 = position o2"
  shows "fst (walkTo env s1 dx dy dz) = fst (walkTo env s2 dx dy dz)
       \<and> observable (snd (walkTo env s1 dx dy dz)) = observable (snd (walkTo env s2 dx dy dz))"
  using observable_eqD [OF obs] o1 o2 pos
  by (simp add: walkTo_def walkTo_targetPos_def ensureOrigin_set Let_def case_prod_unfold
      observable_def)

lemma pourWaterInHole_obs:
  assumes obs: "observable s1 = observable s2"
    and o1: "origin s1 = Some o1" and o2: "origin s2 = Some o2"
    and pos: "position o1 = position o2"
  shows "fst (pourWaterInHole env s1 dx dy dz) = fst (pourWaterInHole env s2 dx dy dz)
       \<and> observable (snd (pourWaterInHole env s1 dx dy dz))
           = observable (snd (pourWaterInHole env s2 dx dy dz))"
proof -
  let ?a1 = "log_line (Pouring dx dy dz) s1" and ?a2 = "log_line (Pouring dx dy dz) s2"
  note eqs = observable_eqD [OF obs]
  have rel_a: "observable ?a1 = observable ?a2"
    using eqs by simp
  let ?e1 = "equipItem env ?a1 ''water_bucket'' ''hand''"
  let ?e2 = "equipItem env ?a2 ''water_bucket'' ''hand''"
  have fe: "fst ?e1 = fst ?e2" and oe: "observable (snd ?e1) = observable (snd ?e2)"
    using equipItem_obs [OF rel_a] by auto
  have p: "pour_lookAtPoint o1 dx dy dz = pour_lookAtPoint o2 dx dy dz"
    using pos by (simp add: pour_lookAtPoint_eq)
  show ?thesis
  proof (cases "fst ?e2")
    case False
    with fe have "\<not> fst ?e1" by simp
    with False o1 o2 show ?thesis
      by (simp add: pourWaterInHole_def ensureOrigin_set Let_def case_prod_unfold
          observable_eqD [OF oe])
  next
    case True
    with fe have "fst ?e1" by simp
    with True o1 o2 p show ?thesis
      by (simp add: pourWaterInHole_def ensureOrigin_set Let_def case_prod_unfold
          observable_eqD [OF oe] observable_def split: option.splits)
  qed
qed

lemma toggleBlock_obs:
  assumes obs: "observable s1 = observable s2"
    and o1: "origin s1 = Some o1" and o2: "origin s2 = Some o2"
    and pos: "position o1 = position o2"
  shows "observable (toggleBlock env s1 blockType x y z)
           = observable (toggleBlock env s2 blockType x y z)"
  using observable_eqD [OF obs] o1 o2 pos
  by (simp add: toggleBlock_run ensureOrigin_set Let_def observable_def split: option.splits)

lemma dig_obs:
  assumes obs: "observable s1 = observable s2"
    and o1: "origin s1 = Some o1" and o2: "origin s2 = Some o2"
    and pos: "position o1 = position o2"
  shows "observable (dig env s1 offs) = observable (dig env s2 offs)"
proof -
  let ?a1 = "log_line (Text ''Digging based on coordinate list...'') s1"
  let ?a2 = "log_line (Text ''Digging based on coordinate list...'') s2"
  have rel_a: "observable ?a1 = observable ?a2"
    using observable_eqD [OF obs] by simp
  have "observable (dig_loop env (position o2) ?a1 offs)
          = observable (dig_loop env (position o2) ?a2 offs)"
    using rel_a by (rule dig_loop_obs)
  then show ?thesis
    using o1 o2 pos by (simp add: dig_def ensureOrigin_set)
qed

text \<open>
  C10. Take two bots that differ only in the yaw stored in their origin frame. Every primitive
  returns the same value on both and leaves the same collaborator state, the same log and the
  same sequence of capability calls, with the same coordinates in them; in particular the
  point \<^verbatim>\<open>pourWaterInHole\<close> computes does not depend on the yaw it reads.
\<close>

theorem resolution_ignores_yaw:
  "fst (placeOnBlock env (s\<lparr>origin := Some \<lparr>position = p, yaw = yaw1\<rparr>\<rparr>) itemName (r, u, f) dir fd)
     = fst (placeOnBlock env (s\<lparr>origin := Some \<lparr>position = p, yaw = yaw2\<rparr>\<rparr>) itemName (r, u, f) dir fd)
   \<and> observable (snd (placeOnBlock env (s\<lparr>origin := Some \<lparr>position = p, yaw = yaw1\<rparr>\<rparr>)
                        itemName (r, u, f) dir fd))
     = observable (snd (placeOnBlock env (s\<lparr>origin := Some \<lparr>position = p, yaw = yaw2\<rparr>\<rparr>)
                        itemName (r, u, f) dir fd))
   \<and> fst (walkTo env (s\<lparr>origin := Some \<lparr>position = p, yaw = yaw1\<rparr>\<rparr>) r u f)
     = fst (walkTo env (s\<lparr>origin := Some \<lparr>position = p, yaw = yaw2\<rparr>\<rparr>) r u f)
   \<and> observable (snd (walkTo env (s\<lparr>origin := Some \<lparr>position = p, yaw = yaw1\<rparr>\<rparr>) r u f))
     = observable (snd (walkTo env (s\<lparr>origin := Some \<lparr>position = p, yaw = yaw2\<rparr>\<rparr>) r u f))
   \<and> observable (toggleBlock env (s\<lparr>origin := Some \<lparr>position = p, yaw = yaw1\<rparr>\<rparr>) blockType r u f)
     = observable (toggleBlock env (s\<lparr>origin := Some \<lparr>position = p, yaw = yaw2\<rparr>\<rparr>) blockType r u f)
   \<and> observable (dig env (s\<lparr>origin := Some \<lparr>position = p, yaw = yaw1\<rparr>\<rparr>) offs)
     = observable (dig env (s\<lparr>origin := Some \<lparr>position = p, yaw = yaw2\<rparr>\<rparr>) offs)
   \<and> fst (pourWaterInHole env (s\<lparr>origin := Some \<lparr>position = p, yaw = yaw1\<rparr>\<rparr>) r u f)
     = fst (pourWaterInHole env (s\<lparr>origin := Some \<lparr>position = p, yaw = yaw2\<rparr>\<rparr>) r u f)
   \<and> observable (snd (pourWaterInHole env (s\<lparr>origin := Some \<lparr>position = p, yaw = yaw1\<rparr>\<rparr>) r u f))
     = observable (snd (pourWaterInHole env (s\<lparr>origin := Some \<lparr>position = p, yaw = yaw2\<rparr>\<rparr>) r u f))
   \<and> pour_lookAtPoint \<lparr>position = p, yaw = yaw1\<rparr> r u f
     = pour_lookAtPoint \<lparr>position = p, yaw = yaw2\<rparr> r u f"
proof -
  let ?s1 = "s\<lparr>origin := Some \<lparr>position = p, yaw = yaw1\<rparr>\<rparr>"
  let ?s2 = "s\<lparr>origin := Some \<lparr>position = p, yaw = yaw2\<rparr>\<rparr>"
  have obs: "observable ?s1 = observable ?s2"
    by (simp add: observable_def)
  have o1: "origin ?s1 = Some \<lparr>position = p, yaw = yaw1\<rparr>"
    and o2: "origin ?s2 = Some \<lparr>position = p, yaw = yaw2\<rparr>"
    by simp_all
  have pos: "position \<lparr>position = p, yaw = yaw1\<rparr> = position \<lparr>position = p, yaw = yaw2\<rparr>"
    by simp
  note a = placeOnBlock_obs [OF obs o1 o2 pos, of env itemName r u f dir fd]
  note b = walkTo_obs [OF obs o1 o2 pos, of env r u f]
  note c = toggleBlock_obs [OF obs o1 o2 pos, of env blockType r u f]
  note d = dig_obs [OF obs o1 o2 pos, of env offs]
  note e = pourWaterInHole_obs [OF obs o1 o2 pos, of env r u f]
  have g: "pour_lookAtPoint \<lparr>position = p, yaw = yaw1\<rparr> r u f
             = pour_lookAtPoint \<lparr>position = p, yaw = yaw2\<rparr> r u f"
    by (simp add: pour_lookAtPoint_eq)
  from a b c d e g show ?thesis by blast
qed

section \<open>Outcomes and logging of the primitives\<close>

















section \<open>Re-invocation\<close>

lemma snow_once:
  "m_blocks (world (snd (placeOnBlock mock_env (bot_in snow_world) ''snow'' (0, -1, 1)
                           default_directionVec None))) (Vec3 0 64 (-1)) = Some (''snow'', 0)"
  by (simp add: run_defs mock_defs snow_world_def)

lemma snow_twice:
  "m_blocks (world (snd (placeOnBlock mock_env
      (snd (placeOnBlock mock_env (bot_in snow_world) ''snow'' (0, -1, 1)
              default_directionVec None))
      ''snow'' (0, -1, 1) default_directionVec None))) (Vec3 0 64 (-1)) = Some (''snow'', 1)"
  by (simp add: run_defs mock_defs snow_world_def)

text \<open>
  C9 as stated fails. In the mock world a snow layer is placed on the stone in front of the
  bot; the same call again finds the same stone, is handed to \<^verbatim>\<open>placeBlock\<close> again and adds
  a second layer: two invocations leave another world than one.
\<close>

theorem placeOnBlock_idempotent_counterexample:
  "world (snd (placeOnBlock mock_env
      (snd (placeOnBlock mock_env (bot_in snow_world) ''snow'' (0, -1, 1)
              default_directionVec None))
      ''snow'' (0, -1, 1) default_directionVec None))
   \<noteq> world (snd (placeOnBlock mock_env (bot_in snow_world) ''snow'' (0, -1, 1)
                   default_directionVec None))"
proof
  assume "world (snd (placeOnBlock mock_env
      (snd (placeOnBlock mock_env (bot_in snow_world) ''snow'' (0, -1, 1)
              default_directionVec None))
      ''snow'' (0, -1, 1) default_directionVec None))
   = world (snd (placeOnBlock mock_env (bot_in snow_world) ''snow'' (0, -1, 1)
                   default_directionVec None))"
  then have "m_blocks (world (snd (placeOnBlock mock_env
      (snd (placeOnBlock mock_env (bot_in snow_world) ''snow'' (0, -1, 1)
              default_directionVec None))
      ''snow'' (0, -1, 1) default_directionVec None))) (Vec3 0 64 (-1))
   = m_blocks (world (snd (placeOnBlock mock_env (bot_in snow_world) ''snow'' (0, -1, 1)
                   default_directionVec None))) (Vec3 0 64 (-1))"
    by simp
  then show False
    by (simp only: snow_once snow_twice) simp
qed

lemma frame_of_origin: "origin t = Some (frame env s) \<Longrightarrow> frame env t = frame env s"
  by (simp add: frame_def)

lemma placeOnBlock_early:
  assumes "bot_blockAt env (world s)
             (Vec3 (vx (position (frame env s)) + x) (vy (position (frame env s)) + y)
                (vz (position (frame env s)) - z)) = None
           \<or> bot_findInventoryItem env (world s) itemName = None"
  shows "world (snd (placeOnBlock env s itemName (x, y, z) dir fd)) = world s"
    and "origin (snd (placeOnBlock env s itemName (x, y, z) dir fd)) = Some (frame env s)"
  using assms
  by (auto simp: placeOnBlock_def equipItem_def case_prod_unfold Let_def split: option.splits)

lemma dig_offset_noop:
  "nothing_to_dig env (world t) p off \<Longrightarrow> world (dig_offset env p t off) = world t"
  by (cases off) (auto simp: nothing_to_dig_def dig_offset_run Let_def split: option.splits)

lemma dig_offset_origin: "origin (dig_offset env p t off) = origin t"
  by (cases off) (simp add: dig_offset_run Let_def split: option.splits)

lemma dig_loop_origin: "origin (dig_loop env p s offs) = origin s"
  by (induction offs arbitrary: s) (simp_all add: dig_offset_origin)

lemma dig_loop_noop:
  "list_all (nothing_to_dig env (world s) p) offs \<Longrightarrow> world (dig_loop env p s offs) = world s"
proof (induction offs arbitrary: s)
  case Nil
  show ?case by simp
next
  case (Cons off rest)
  from Cons.prems have w: "world (dig_offset env p s off) = world s"
    by (simp add: dig_offset_noop)
  with Cons.prems have "list_all (nothing_to_dig env (world (dig_offset env p s off)) p) rest"
    by simp
  then have "world (dig_loop env p (dig_offset env p s off) rest) = world (dig_offset env p s off)"
    by (rule Cons.IH)
  with w show ?case by simp
qed

lemma dig_noop:
  assumes "list_all (nothing_to_dig env (world s) (position (frame env s))) offs"
  shows "world (dig env s offs) = world s"
    and "origin (dig env s offs) = Some (frame env s)"
  using assms by (simp_all add: dig_run dig_loop_noop dig_loop_origin)

lemma toggleBlock_noop:
  assumes "case bot_blockAt env (world s)
                  (floored (Vec3 (vx (position (frame env s)) + x)
                     (vy (position (frame env s)) + y) (vz (position (frame env s)) - z))) of
             None \<Rightarrow> True
           | Some blk \<Rightarrow> name blk \<noteq> blockType"
  shows "world (toggleBlock env s blockType x y z) = world s"
    and "origin (toggleBlock env s blockType x y z) = Some (frame env s)"
  using assms by (simp_all add: toggleBlock_run Let_def split: option.splits)

lemma place_attempts_first_call:
  assumes "retry < maxRetries"
  shows "place_calls (new_calls s (snd (place_attempts env itemName blk dir retry s))) \<noteq> []"
proof -
  obtain r w where pb: "bot_placeBlock env (world s) blk dir = (r, w)"
    by (cases "bot_placeBlock env (world s) blk dir")
  show ?thesis
  proof (cases "case r of None \<Rightarrow> True | Some e \<Rightarrow> benign e")
    case True
    with assms pb show ?thesis
      by (simp add: place_attempts.simps [of env itemName blk dir retry s] new_calls_def
          split: option.splits)
  next
    case False
    then obtain e where e: "r = Some e" "\<not> benign e"
      by (cases r) simp_all
    let ?s' = "log_line (AttemptFailed (retry + 1) itemName (message e))
                 (called (CallPlaceBlock blk dir) (s\<lparr>world := w\<rparr>))"
    have unf: "place_attempts env itemName blk dir retry s
                 = place_attempts env itemName blk dir (retry + 1) ?s'"
      using assms pb e by (simp add: place_attempts.simps [of env itemName blk dir retry s])
    obtain n where "calls (snd (place_attempts env itemName blk dir (retry + 1) ?s'))
                      = calls ?s' @ replicate n (CallPlaceBlock blk dir)"
      using place_attempts_calls [of "retry + 1" env itemName blk dir ?s'] by blast
    then show ?thesis
      by (simp add: unf new_calls_def)
  qed
qed

lemma placeOnBlock_reissues:
  assumes "bot_blockAt env (world s)
             (Vec3 (vx (position (frame env s)) + x) (vy (position (frame env s)) + y)
                (vz (position (frame env s)) - z)) = Some blk"
    and "fst (equipItem env s itemName ''hand'')"
  shows "place_calls (new_calls s (snd (placeOnBlock env s itemName (x, y, z) dir fd))) \<noteq> []"
proof -
  obtain n where n: "n \<le> maxRetries"
    "place_calls (new_calls s (snd (placeOnBlock env s itemName (x, y, z) dir fd)))
       = replicate n (blk, dir)"
    using placeOnBlock_place_calls [of env s x y z itemName dir fd] assms by auto
  let ?abs = "Vec3 (vx (position (frame env s)) + x) (vy (position (frame env s)) + y)
                (vz (position (frame env s)) - z)"
  let ?t = "face env fd
              (snd (equipItem env
                      (called (CallBlockAt ?abs) (snd (ensureOrigin env origin_unset_msg_place s)))
                      itemName ''hand''))"
  have run: "placeOnBlock env s itemName (x, y, z) dir fd
               = place_attempts env itemName blk dir 0 ?t"
    using placeOnBlock_reached [OF assms] .
  have first: "place_calls (new_calls ?t (snd (place_attempts env itemName blk dir 0 ?t))) \<noteq> []"
    by (rule place_attempts_first_call) (simp add: maxRetries_def)
  obtain m where m: "calls (snd (place_attempts env itemName blk dir 0 ?t))
                       = calls ?t @ replicate m (CallPlaceBlock blk dir)"
    using place_attempts_calls [of 0 env itemName blk dir ?t] by blast
  from first m have "m \<noteq> 0"
    by (auto simp: new_calls_def)
  obtain cs where cs: "calls ?t = calls s @ cs" "place_calls cs = []"
  proof -
    obtain c1 where c1: "calls ?t
        = calls (snd (equipItem env
                        (called (CallBlockAt ?abs) (snd (ensureOrigin env origin_unset_msg_place s)))
                        itemName ''hand'')) @ c1" "place_calls c1 = []"
      using face_fields(3) by blast
    have "calls ?t = calls s @ (CallBlockAt ?abs
            # (case bot_findInventoryItem env (world s) itemName of
                 None \<Rightarrow> [] | Some item \<Rightarrow> [CallEquip item ''hand'']) @ c1)"
      using c1(1) by (simp add: equipItem_fields)
    moreover have "place_calls (CallBlockAt ?abs
            # (case bot_findInventoryItem env (world s) itemName of
                 None \<Rightarrow> [] | Some item \<Rightarrow> [CallEquip item ''hand'']) @ c1) = []"
      using c1(2) by (simp split: option.splits)
    ultimately show ?thesis using that by blast
  qed
  have "place_calls (new_calls s (snd (placeOnBlock env s itemName (x, y, z) dir fd)))
          = replicate m (blk, dir)"
    using m cs by (simp add: run new_calls_def)
  with \<open>m \<noteq> 0\<close> show ?thesis by simp
qed

text \<open>
  C9, as the code has it. Re-invocation leaves the world as one invocation left it wherever
  the primitive issues no action: \<^verbatim>\<open>placeOnBlock\<close> when no block is found at the coordinate
  or the item is not in the inventory, \<^verbatim>\<open>dig\<close> when every listed cell is unloaded,
  undiggable or air, \<^verbatim>\<open>toggleBlock\<close> when the block is missing or of another type; there the
  world is the one before the call. A \<^verbatim>\<open>placeOnBlock\<close> that reaches the placement phase calls
  \<^verbatim>\<open>placeBlock\<close> on every invocation, so what a repetition does to the world is the
  collaborator's answer to that call.
\<close>

theorem reinvocation_noop_cases:
  "((bot_blockAt env (world s)
       (Vec3 (vx (position (frame env s)) + x) (vy (position (frame env s)) + y)
          (vz (position (frame env s)) - z)) = None
     \<or> bot_findInventoryItem env (world s) itemName = None) \<longrightarrow>
      world (snd (placeOnBlock env s itemName (x, y, z) dir fd)) = world s
      \<and> world (snd (placeOnBlock env (snd (placeOnBlock env s itemName (x, y, z) dir fd))
                       itemName (x, y, z) dir fd))
          = world (snd (placeOnBlock env s itemName (x, y, z) dir fd)))
   \<and> (list_all (nothing_to_dig env (world s) (position (frame env s))) offs \<longrightarrow>
      world (dig env s offs) = world s
      \<and> world (dig env (dig env s offs) offs) = world (dig env s offs))
   \<and> ((case bot_blockAt env (world s)
              (floored (Vec3 (vx (position (frame env s)) + x)
                 (vy (position (frame env s)) + y) (vz (position (frame env s)) - z))) of
         None \<Rightarrow> True
       | Some found \<Rightarrow> name found \<noteq> blockType) \<longrightarrow>
      world (toggleBlock env s blockType x y z) = world s
      \<and> world (toggleBlock env (toggleBlock env s blockType x y z) blockType x y z)
          = world (toggleBlock env s blockType x y z))
   \<and> (bot_blockAt env (world s)
         (Vec3 (vx (position (frame env s)) + x) (vy (position (frame env s)) + y)
            (vz (position (frame env s)) - z)) = Some blk
       \<and> fst (equipItem env s itemName ''hand'') \<longrightarrow>
      place_calls (new_calls s (snd (placeOnBlock env s itemName (x, y, z) dir fd))) \<noteq> [])"
proof -
  let ?abs = "Vec3 (vx (position (frame env s)) + x) (vy (position (frame env s)) + y)
                (vz (position (frame env s)) - z)"
  have place: "world (snd (placeOnBlock env s itemName (x, y, z) dir fd)) = world s
      \<and> world (snd (placeOnBlock env (snd (placeOnBlock env s itemName (x, y, z) dir fd))
                       itemName (x, y, z) dir fd))
          = world (snd (placeOnBlock env s itemName (x, y, z) dir fd))"
    if h: "bot_blockAt env (world s) ?abs = None
           \<or> bot_findInventoryItem env (world s) itemName = None"
  proof -
    let ?s' = "snd (placeOnBlock env s itemName (x, y, z) dir fd)"
    have w: "world ?s' = world s" and o: "origin ?s' = Some (frame env s)"
      using placeOnBlock_early [OF h] by simp_all
    have f: "frame env ?s' = frame env s"
      using o by (rule frame_of_origin)
    have "bot_blockAt env (world ?s')
             (Vec3 (vx (position (frame env ?s')) + x) (vy (position (frame env ?s')) + y)
                (vz (position (frame env ?s')) - z)) = None
           \<or> bot_findInventoryItem env (world ?s') itemName = None"
      using h by (simp only: w f)
    from placeOnBlock_early(1) [OF this] w show ?thesis by simp
  qed
  have digs: "world (dig env s offs) = world s
      \<and> world (dig env (dig env s offs) offs) = world (dig env s offs)"
    if h: "list_all (nothing_to_dig env (world s) (position (frame env s))) offs"
  proof -
    let ?s' = "dig env s offs"
    have w: "world ?s' = world s" and o: "origin ?s' = Some (frame env s)"
      using dig_noop [OF h] by simp_all
    have f: "frame env ?s' = frame env s"
      using o by (rule frame_of_origin)
    have "list_all (nothing_to_dig env (world ?s') (position (frame env ?s'))) offs"
      using h by (simp only: w f)
    from dig_noop(1) [OF this] w show ?thesis by simp
  qed
  have tog: "world (toggleBlock env s blockType x y z) = world s
      \<and> world (toggleBlock env (toggleBlock env s blockType x y z) blockType x y z)
          = world (toggleBlock env s blockType x y z)"
    if h: "case bot_blockAt env (world s)
                  (floored (Vec3 (vx (position (frame env s)) + x)
                     (vy (position (frame env s)) + y) (vz (position (frame env s)) - z))) of
             None \<Rightarrow> True
           | Some found \<Rightarrow> name found \<noteq> blockType"
  proof -
    let ?s' = "toggleBlock env s blockType x y z"
    have w: "world ?s' = world s" and o: "origin ?s' = Some (frame env s)"
      using toggleBlock_noop [OF h] by simp_all
    have f: "frame env ?s' = frame env s"
      using o by (rule frame_of_origin)
    have "case bot_blockAt env (world ?s')
                  (floored (Vec3 (vx (position (frame env ?s')) + x)
                     (vy (position (frame env ?s')) + y) (vz (position (frame env ?s')) - z))) of
             None \<Rightarrow> True
           | Some found \<Rightarrow> name found \<noteq> blockType"
      using h by (simp only: w f)
    from toggleBlock_noop(1) [OF this] w show ?thesis by simp
  qed
  have again: "place_calls (new_calls s (snd (placeOnBlock env s itemName (x, y, z) dir fd))) \<noteq> []"
    if "bot_blockAt env (world s) ?abs = Some blk \<and> fst (equipItem env s itemName ''hand'')"
    using that placeOnBlock_reissues [of env s x y z blk itemName dir fd] by simp
  from place digs tog again show ?thesis by blast
qed

theorem reinvocation_noop_cases_witness:
  "bot_blockAt mock_env (world (bot_in void_world))
     (Vec3 (vx (position (frame mock_env (bot_in void_world))) + 0)
        (vy (position (frame mock_env (bot_in void_world))) + (-1))
        (vz (position (frame mock_env (bot_in void_world))) - 2)) = None
   \<and> world (snd (placeOnBlock mock_env
        (snd (placeOnBlock mock_env (bot_in void_world) ''lever'' (0, -1, 2)
                default_directionVec None))
        ''lever'' (0, -1, 2) default_directionVec None)) = void_world
   \<and> list_all (nothing_to_dig mock_env (world (bot_in pit_world))
                 (position (frame mock_env (bot_in pit_world)))) [(0, -1, 2)]
   \<and> world (dig mock_env (dig mock_env (bot_in pit_world) [(0, -1, 2)]) [(0, -1, 2)]) = pit_world
   \<and> world (toggleBlock mock_env (toggleBlock mock_env (bot_in pit_world) ''lever'' 0 (-1) 2)
               ''lever'' 0 (-1) 2) = pit_world
   \<and> bot_blockAt mock_env (world (bot_in lever_world))
     (Vec3 (vx (position (frame mock_env (bot_in lever_world))) + 0)
        (vy (position (frame mock_env (bot_in lever_world))) + (-1))
        (vz (position (frame mock_env (bot_in lever_world))) - 2)) = Some
          \<lparr>name = ''stone'', block_position = Vec3 0 63 (-2), metadata = 0\<rparr>
   \<and> fst (equipItem mock_env (bot_in lever_world) ''lever'' ''hand'')
   \<and> place_calls (new_calls (bot_in lever_world)
        (snd (placeOnBlock mock_env (bot_in lever_world) ''lever'' (0, -1, 2)
                default_directionVec None))) \<noteq> []"
  using reinvocation_noop_cases [of mock_env "bot_in void_world" 0 "-1" 2 "''lever''"
      default_directionVec None "[]" "''lever''"]
    reinvocation_noop_cases [of mock_env "bot_in pit_world" 0 "-1" 2 "''lever''"
      default_directionVec None "[(0, -1, 2)]" "''lever''"]
    reinvocation_noop_cases [of mock_env "bot_in lever_world" 0 "-1" 2 "''lever''"
      default_directionVec None "[]" "''lever''"
      "\<lparr>name = ''stone'', block_position = Vec3 0 63 (-2), metadata = 0\<rparr>"]
  by (simp add: nothing_to_dig_def dig_pos_def equipItem_fst frame_def originFrame_def clone_def
      mock_defs void_world_def pit_world_def lever_world_def)

end
